theory Spec2Isabelle
  imports Main
begin

section \<open>JavaScript strings\<close>

text \<open>
  A JavaScript string is a finite sequence of UTF-16 code units. The plugin never computes
  with a code unit: it compares them, tests them against character classes and counts
  them (\<open>match.index\<close>, \<open>padEnd\<close>). A code unit is modelled as a natural number and a
  string as a list of them, so that \<open>length\<close> counts what JavaScript's \<open>.length\<close>
  counts. The ASCII literals of the source are written \<open>js ''...''\<close>; the few
  characters of the source beyond ASCII are given by their code points.
\<close>

type_synonym code_unit = nat
type_synonym jsstring = "code_unit list"

definition js :: "string \<Rightarrow> jsstring" where
  "js s = map of_char s"

text \<open>\<open>s.startsWith(p)\<close>\<close>

definition startsWith :: "jsstring \<Rightarrow> jsstring \<Rightarrow> bool" where
  "startsWith s p = (take (length p) s = p)"

text \<open>\<open>s.includes(sub)\<close>: \<open>sub\<close> occurs in \<open>s\<close> at some position.\<close>

fun includes_js :: "jsstring \<Rightarrow> jsstring \<Rightarrow> bool" where
  "includes_js [] sub = (sub = [])"
| "includes_js (c # cs) sub = (startsWith (c # cs) sub \<or> includes_js cs sub)"

text \<open>
  \<open>s.replace(pat, rep)\<close> with a string \<open>pat\<close>: the first occurrence of \<open>pat\<close> is
  replaced, the rest of \<open>s\<close> is kept. (The source only calls it with the replacement
  \<open>''\<close>, which has no \<open>$\<close> substitution pattern.)
\<close>

fun replace :: "jsstring \<Rightarrow> jsstring \<Rightarrow> jsstring \<Rightarrow> jsstring" where
  "replace [] pat rep = (if pat = [] then rep else [])"
| "replace (c # cs) pat rep =
     (if startsWith (c # cs) pat then rep @ drop (length pat) (c # cs)
      else c # replace cs pat rep)"

text \<open>\<open>s.split('\n')\<close>: the pieces between line feeds; the empty string gives one empty piece.\<close>

definition LF :: code_unit where
  "LF = 10"

fun split :: "jsstring \<Rightarrow> jsstring list" where
  "split [] = [[]]"
| "split (c # cs) =
     (if c = LF then [] # split cs
      else (case split cs of [] \<Rightarrow> [[c]] | l # ls \<Rightarrow> (c # l) # ls))"

text \<open>
  The code units that the regular-expression class \<open>\s\<close> matches and that \<open>trim\<close>
  strips (ECMAScript WhiteSpace and LineTerminator).
\<close>

definition isSpace :: "code_unit \<Rightarrow> bool" where
  "isSpace c = (c \<in> {9, 10, 11, 12, 13, 32, 160, 5760, 8232, 8233, 8239, 8287, 12288, 65279}
                \<or> (8192 \<le> c \<and> c \<le> 8202))"

definition trim :: "jsstring \<Rightarrow> jsstring" where
  "trim s = rev (dropWhile isSpace (rev (dropWhile isSpace s)))"

text \<open>\<open>s.padEnd(n)\<close>: spaces are appended until the length is \<open>n\<close>.\<close>

definition padEnd :: "jsstring \<Rightarrow> nat \<Rightarrow> jsstring" where
  "padEnd s n = s @ replicate (n - length s) 32"

text \<open>
  The decimal digits of a number, as a template literal prints a count (JavaScript prints
  all the digits of an integer below \<open>10\<^sup>2\<^sup>1\<close>).
\<close>

fun digits :: "nat \<Rightarrow> jsstring" where
  "digits n = (if n < 10 then [48 + n] else digits (n div 10) @ [48 + n mod 10])"

declare digits.simps [simp del]

section \<open>The regular expressions of the locator\<close>

text \<open>
  The three expressions that \<open>findImportLocations\<close> builds use literal text, the classes
  \<open>\s\<close>, \<open>['"]\<close> and \<open>[^'"]\<close>, the quantifiers \<open>*\<close> and \<open>+\<close> on a class, and one
  optional group. \<open>rmatch r s\<close> lists what is left of \<open>s\<close> after each way of matching
  \<open>r\<close> at the start of \<open>s\<close>, the greedy way first: \<open>r\<close> matches at the start of \<open>s\<close>
  exactly when the list is not empty, which is what a backtracking matcher finds.
\<close>

datatype cclass = Space | Quote | NotQuote

fun in_class :: "cclass \<Rightarrow> code_unit \<Rightarrow> bool" where
  "in_class Space c = isSpace c"
| "in_class Quote c = (c = 39 \<or> c = 34)"
| "in_class NotQuote c = (\<not> (c = 39 \<or> c = 34))"

datatype rx = Lit jsstring | One cclass | Star cclass | Plus cclass | Opt rx | Seq rx rx

fun star :: "cclass \<Rightarrow> jsstring \<Rightarrow> jsstring list" where
  "star k [] = [[]]"
| "star k (c # cs) = (if in_class k c then star k cs else []) @ [c # cs]"

fun rmatch :: "rx \<Rightarrow> jsstring \<Rightarrow> jsstring list" where
  "rmatch (Lit p) s = (if startsWith s p then [drop (length p) s] else [])"
| "rmatch (One k) s = (case s of [] \<Rightarrow> [] | c # cs \<Rightarrow> if in_class k c then [cs] else [])"
| "rmatch (Star k) s = star k s"
| "rmatch (Plus k) s = (case s of [] \<Rightarrow> [] | c # cs \<Rightarrow> if in_class k c then star k cs else [])"
| "rmatch (Opt r) s = rmatch r s @ [s]"
| "rmatch (Seq a b) s = concat (map (rmatch b) (rmatch a s))"

text \<open>
  For comparison, the strings that an expression matches in full, as the grammar of regular
  expressions defines them. Lemma \<open>rmatch_lang\<close> relates the two.
\<close>

fun lang :: "rx \<Rightarrow> jsstring set" where
  "lang (Lit p) = {p}"
| "lang (One k) = {[c] | c. in_class k c}"
| "lang (Star k) = {u. \<forall>c\<in>set u. in_class k c}"
| "lang (Plus k) = {u. u \<noteq> [] \<and> (\<forall>c\<in>set u. in_class k c)}"
| "lang (Opt r) = insert [] (lang r)"
| "lang (Seq a b) = {u @ v | u v. u \<in> lang a \<and> v \<in> lang b}"

fun Cat :: "rx list \<Rightarrow> rx" where
  "Cat [] = Lit []"
| "Cat [r] = r"
| "Cat (r # rs) = Seq r (Cat rs)"

text \<open>
  \<open>s.match(regex)\<close> for a regex without flags: the leftmost position at which the regex
  matches, which is \<open>match.index\<close>, or no match. \<open>i\<close> is the position of \<open>s\<close> in the
  whole line.
\<close>

fun search :: "rx \<Rightarrow> jsstring \<Rightarrow> nat \<Rightarrow> nat option" where
  "search r [] i = (if rmatch r [] \<noteq> [] then Some i else None)"
| "search r (c # cs) i = (if rmatch r (c # cs) \<noteq> [] then Some i else search r cs (Suc i))"

definition match :: "jsstring \<Rightarrow> rx \<Rightarrow> nat option" where
  "match s r = search r s 0"

text \<open>
  \<open>importPattern.replace(/[.*+?^${}()|[\]\\]/g, '\\$&')\<close>: a backslash is put before
  each of the fourteen syntax characters.
\<close>

definition syntaxChars :: "code_unit list" where
  "syntaxChars = js ''.*+?^${}()|[]'' @ [92]"

definition escape :: "jsstring \<Rightarrow> jsstring" where
  "escape p = concat (map (\<lambda>c. if c \<in> set syntaxChars then [92, c] else [c]) p)"

text \<open>
  What the regular-expression parser reads in a run of pattern characters and identity
  escapes: \<open>\c\<close> stands for \<open>c\<close>, any other character for itself. The escaped pattern
  is such a run (lemma \<open>escape_literal\<close>), and it stands for the pattern itself
  (lemma \<open>unescape_escape\<close>).
\<close>

fun unescape :: "jsstring \<Rightarrow> jsstring" where
  "unescape [] = []"
| "unescape [c] = [c]"
| "unescape (c # d # cs) = (if c = 92 then d # unescape cs else c # unescape (d # cs))"

fun literalSource :: "jsstring \<Rightarrow> bool" where
  "literalSource [] = True"
| "literalSource [c] = (c \<notin> set syntaxChars)"
| "literalSource (c # d # cs) =
     (if c = 92 then d \<in> set syntaxChars \<and> literalSource cs
      else c \<notin> set syntaxChars \<and> literalSource (d # cs))"

text \<open>
  The three expressions, in the order of the source's array:
  \<^verbatim>\<open>from\s+['"]P(?:/[^'"]*)?['"]\<close>,
  \<^verbatim>\<open>require\s*\(\s*['"]P(?:/[^'"]*)?['"]\<close> and
  \<^verbatim>\<open>import\s*\(\s*['"]P(?:/[^'"]*)?['"]\<close>, where \<open>P\<close> is the escaped pattern.
\<close>

definition specifier :: "jsstring \<Rightarrow> rx list" where
  "specifier escapedPattern =
     [One Quote, Lit (unescape escapedPattern),
      Opt (Seq (Lit (js ''/'')) (Star NotQuote)), One Quote]"

definition fromForm :: "jsstring \<Rightarrow> rx" where
  "fromForm escapedPattern =
     Cat ([Lit (js ''from''), Plus Space] @ specifier escapedPattern)"

definition requireForm :: "jsstring \<Rightarrow> rx" where
  "requireForm escapedPattern =
     Cat ([Lit (js ''require''), Star Space, Lit (js ''(''), Star Space]
          @ specifier escapedPattern)"

definition importForm :: "jsstring \<Rightarrow> rx" where
  "importForm escapedPattern =
     Cat ([Lit (js ''import''), Star Space, Lit (js ''(''), Star Space]
          @ specifier escapedPattern)"

definition patterns :: "jsstring \<Rightarrow> rx list" where
  "patterns escapedPattern =
     [fromForm escapedPattern, requireForm escapedPattern, importForm escapedPattern]"

section \<open>The locator\<close>

record ImportError =
  importName :: jsstring
  line :: nat
  column :: nat
  lineContent :: jsstring

text \<open>
  The loop \<open>for (const regex of patterns)\<close>: the first expression that matches the line
  pushes one record and breaks.
\<close>

fun firstForm :: "rx list \<Rightarrow> jsstring \<Rightarrow> nat option" where
  "firstForm [] lineText = None"
| "firstForm (regex # rest) lineText =
     (case match lineText regex of
        Some i \<Rightarrow> Some i
      | None \<Rightarrow> firstForm rest lineText)"

definition checkPattern ::
  "jsstring \<Rightarrow> nat \<Rightarrow> ImportError list \<Rightarrow> jsstring \<Rightarrow> ImportError list" where
  "checkPattern lineText index errors importPattern =
     (case firstForm (patterns (escape importPattern)) lineText of
        None \<Rightarrow> errors
      | Some i \<Rightarrow> errors @ [\<lparr>importName = importPattern, line = index + 1, column = i,
                             lineContent = trim lineText\<rparr>])"

text \<open>\<open>imports.forEach\<close> on one line, then \<open>lines.forEach\<close> with the running index.\<close>

definition checkLine ::
  "jsstring list \<Rightarrow> ImportError list \<Rightarrow> jsstring \<times> nat \<Rightarrow> ImportError list" where
  "checkLine imports errors l = foldl (checkPattern (fst l) (snd l)) errors imports"

definition checkLines :: "jsstring list \<Rightarrow> jsstring list \<Rightarrow> ImportError list" where
  "checkLines imports lines = foldl (checkLine imports) [] (zip lines [0 ..< length lines])"

text \<open>
  The file system is a function from a path to the text that \<open>fs.readFileSync\<close> returns,
  \<open>None\<close> when the read throws. The console is the list of what has been printed, each
  entry with its stream. \<open>findImportLocations\<close> returns what it printed and its array:
  the \<open>try\<close> block ends with the array of the records found, the \<open>catch\<close> block with
  a warning and one record without position for each pattern.
\<close>

type_synonym filesystem = "jsstring \<Rightarrow> jsstring option"

datatype stream = ConsoleError | ConsoleWarn

type_synonym console = "(stream \<times> jsstring) list"

definition degraded :: "jsstring \<Rightarrow> ImportError" where
  "degraded imp = \<lparr>importName = imp, line = 0, column = 0, lineContent = []\<rparr>"

definition findImportLocations ::
  "filesystem \<Rightarrow> jsstring \<Rightarrow> jsstring list \<Rightarrow> console \<times> ImportError list" where
  "findImportLocations readFileSync filePath imports =
     (case readFileSync filePath of
        Some content \<Rightarrow> ([], checkLines imports (split content))
      | None \<Rightarrow>
          ([(ConsoleWarn, js ''[plugin-block-imports] Could not read file: '' @ filePath)],
           map degraded imports))"

section \<open>Configuration\<close>

record ForbiddenImport =
  pattern :: jsstring
  alternative :: jsstring
  reason :: "jsstring option"

text \<open>The default rules that the package exports for Next.js projects.\<close>

definition NEXTJS_FORBIDDEN_IMPORTS :: "ForbiddenImport list" where
  "NEXTJS_FORBIDDEN_IMPORTS =
     [\<lparr>pattern = js ''next/link'',
       alternative = js ''<a href=\"...\"> or react-router Link'', reason = None\<rparr>,
      \<lparr>pattern = js ''next/image'',
       alternative = js ''<img src=\"...\"> with proper sizing'', reason = None\<rparr>,
      \<lparr>pattern = js ''next/router'',
       alternative = js ''window.location or custom navigation'', reason = None\<rparr>,
      \<lparr>pattern = js ''next/navigation'',
       alternative = js ''window.location or custom navigation'', reason = None\<rparr>,
      \<lparr>pattern = js ''next/head'',
       alternative = js ''react-helmet or document.head manipulation'', reason = None\<rparr>,
      \<lparr>pattern = js ''next/script'',
       alternative = js ''<script> tag or useEffect for dynamic scripts'', reason = None\<rparr>,
      \<lparr>pattern = js ''next/dynamic'',
       alternative = js ''React.lazy() + Suspense'', reason = None\<rparr>,
      \<lparr>pattern = js ''next/font'',
       alternative = js ''CSS @font-face or Google Fonts link tag'', reason = None\<rparr>,
      \<lparr>pattern = js ''next/headers'',
       alternative = js ''Pass headers as props from host application'', reason = None\<rparr>,
      \<lparr>pattern = js ''next/cookies'',
       alternative = js ''document.cookie or js-cookie library'', reason = None\<rparr>,
      \<lparr>pattern = js ''next-intl'',
       alternative = js ''react-intl, i18next, or react-i18next'', reason = None\<rparr>,
      \<lparr>pattern = js ''next-auth'',
       alternative = js ''Pass auth state as props from host application'', reason = None\<rparr>,
      \<lparr>pattern = js ''next-themes'',
       alternative = js ''Custom theme context or CSS variables'', reason = None\<rparr>,
      \<lparr>pattern = js ''next-seo'',
       alternative = js ''react-helmet or manual meta tag management'', reason = None\<rparr>,
      \<lparr>pattern = js ''next-i18next'',
       alternative = js ''i18next + react-i18next'', reason = None\<rparr>]"

text \<open>An entry of \<open>exclude\<close>: a string, or a regular expression, of which only \<open>test\<close> is used.\<close>

datatype Exclude = Str jsstring | RegExp "jsstring \<Rightarrow> bool"

text \<open>
  The options as the caller passes them. \<open>forbiddenImports\<close> is declared as an array, but
  the plugin checks it at run time: the field may be missing, or hold a value that is not
  an array. An optional field is \<open>None\<close> when it is \<open>undefined\<close> or \<open>null\<close>.
\<close>

datatype ForbiddenImportsValue = Missing | NotAnArray | Array "ForbiddenImport list"

record PluginBlockImportsOptions =
  opt_forbiddenImports :: ForbiddenImportsValue
  opt_exclude :: "Exclude list option"
  opt_failOnError :: "bool option"
  opt_errorHeader :: "jsstring option"
  opt_colors :: "bool option"

text \<open>\<open>Required<PluginBlockImportsOptions>\<close>, the options with the defaults applied.\<close>

record ResolvedOptions =
  forbiddenImports :: "ForbiddenImport list"
  exclude :: "Exclude list"
  failOnError :: bool
  errorHeader :: jsstring
  colors :: bool

section \<open>Colors\<close>

definition ESC :: code_unit where
  "ESC = 27"

record AnsiColors =
  ansi_red :: jsstring
  ansi_yellow :: jsstring
  ansi_cyan :: jsstring
  ansi_gray :: jsstring
  ansi_bold :: jsstring
  ansi_reset :: jsstring

definition ANSI_COLORS :: AnsiColors where
  "ANSI_COLORS =
     \<lparr>ansi_red = ESC # js ''[31m'', ansi_yellow = ESC # js ''[33m'',
      ansi_cyan = ESC # js ''[36m'', ansi_gray = ESC # js ''[90m'',
      ansi_bold = ESC # js ''[1m'', ansi_reset = ESC # js ''[0m''\<rparr>"

record Colorizer =
  red :: "jsstring \<Rightarrow> jsstring"
  yellow :: "jsstring \<Rightarrow> jsstring"
  cyan :: "jsstring \<Rightarrow> jsstring"
  gray :: "jsstring \<Rightarrow> jsstring"
  bold :: "jsstring \<Rightarrow> jsstring"

definition createColorizer :: "bool \<Rightarrow> Colorizer" where
  "createColorizer enabled =
     (if \<not> enabled then
        \<lparr>red = (\<lambda>s. s), yellow = (\<lambda>s. s), cyan = (\<lambda>s. s), gray = (\<lambda>s. s), bold = (\<lambda>s. s)\<rparr>
      else
        \<lparr>red = (\<lambda>s. ansi_red ANSI_COLORS @ s @ ansi_reset ANSI_COLORS),
         yellow = (\<lambda>s. ansi_yellow ANSI_COLORS @ s @ ansi_reset ANSI_COLORS),
         cyan = (\<lambda>s. ansi_cyan ANSI_COLORS @ s @ ansi_reset ANSI_COLORS),
         gray = (\<lambda>s. ansi_gray ANSI_COLORS @ s @ ansi_reset ANSI_COLORS),
         bold = (\<lambda>s. ansi_bold ANSI_COLORS @ s @ ansi_reset ANSI_COLORS)\<rparr>)"

section \<open>Exclusion\<close>

fun excludeLoop :: "jsstring \<Rightarrow> Exclude list \<Rightarrow> bool" where
  "excludeLoop filePath [] = False"
| "excludeLoop filePath (Str s # rest) =
     (if includes_js filePath s then True else excludeLoop filePath rest)"
| "excludeLoop filePath (RegExp test # rest) =
     (if test filePath then True else excludeLoop filePath rest)"

definition shouldExclude :: "jsstring \<Rightarrow> Exclude list \<Rightarrow> bool" where
  "shouldExclude filePath excludePatterns =
     (if includes_js filePath (js ''node_modules'') then True
      else excludeLoop filePath excludePatterns)"

section \<open>Sets and maps of JavaScript\<close>

text \<open>
  A \<open>Set\<close> and a \<open>Map\<close> keep their elements in the order of first insertion, and
  \<open>forEach\<close> and \<open>for ... of\<close> follow that order: a set is the list of its elements, a
  map the list of its entries.
\<close>

definition Set_add :: "'a list \<Rightarrow> 'a \<Rightarrow> 'a list" where
  "Set_add s x = (if x \<in> set s then s else s @ [x])"

definition new_Set :: "'a list \<Rightarrow> 'a list" where
  "new_Set xs = foldl Set_add [] xs"

fun Map_set :: "('k \<times> 'v) list \<Rightarrow> 'k \<Rightarrow> 'v \<Rightarrow> ('k \<times> 'v) list" where
  "Map_set [] k v = [(k, v)]"
| "Map_set ((k', v') # m) k v = (if k' = k then (k, v) # m else (k', v') # Map_set m k v)"

definition Map_get :: "('k \<times> 'v) list \<Rightarrow> 'k \<Rightarrow> 'v option" where
  "Map_get m k = map_of m k"

definition Map_has :: "('k \<times> 'v) list \<Rightarrow> 'k \<Rightarrow> bool" where
  "Map_has m k = (map_of m k \<noteq> None)"

section \<open>The scanner\<close>

text \<open>
  What the bundler hands over: each module has an optional \<open>resource\<close> and optional
  \<open>dependencies\<close>, each dependency an optional \<open>request\<close> and \<open>userRequest\<close>.
\<close>

record Dependency =
  request :: "jsstring option"
  userRequest :: "jsstring option"

record Module =
  resource :: "jsstring option"
  dependencies :: "Dependency list option"

text \<open>
  \<open>a || b\<close> with an optional string \<open>a\<close>: \<open>a\<close> when it is a non-empty string, else
  \<open>b\<close>.
\<close>

definition orElse :: "jsstring option \<Rightarrow> jsstring \<Rightarrow> jsstring" where
  "orElse a b = (case a of None \<Rightarrow> b | Some s \<Rightarrow> if s \<noteq> [] then s else b)"

definition requestOf :: "Dependency \<Rightarrow> jsstring" where
  "requestOf dep = orElse (request dep) (orElse (userRequest dep) [])"

type_synonym ErrorMap = "(jsstring \<times> jsstring list) list"

text \<open>The loop over \<open>forbiddenPatterns\<close>: the first pattern that the request starts with.\<close>

fun firstPattern :: "jsstring list \<Rightarrow> jsstring \<Rightarrow> jsstring option" where
  "firstPattern [] req = None"
| "firstPattern (p # ps) req = (if startsWith req p then Some p else firstPattern ps req)"

definition addFinding :: "ErrorMap \<Rightarrow> jsstring \<Rightarrow> jsstring \<Rightarrow> ErrorMap" where
  "addFinding errorMap res p =
     (let errorMap' = (if \<not> Map_has errorMap res then Map_set errorMap res [] else errorMap)
      in case Map_get errorMap' res of
           Some s \<Rightarrow> Map_set errorMap' res (Set_add s p)
         | None \<Rightarrow> errorMap')"

definition scanDependency :: "jsstring list \<Rightarrow> jsstring \<Rightarrow> ErrorMap \<Rightarrow> Dependency \<Rightarrow> ErrorMap" where
  "scanDependency forbiddenPatterns res errorMap dep =
     (case firstPattern forbiddenPatterns (requestOf dep) of
        None \<Rightarrow> errorMap
      | Some p \<Rightarrow> addFinding errorMap res p)"

text \<open>\<open>module.dependencies || []\<close>\<close>

definition dependenciesOf :: "Module \<Rightarrow> Dependency list" where
  "dependenciesOf module = (case dependencies module of None \<Rightarrow> [] | Some ds \<Rightarrow> ds)"

text \<open>
  One module: \<open>if (!resource) continue\<close> skips a missing and an empty resource, then
  the excluded ones are skipped, then the dependencies are scanned.
\<close>

definition scanModule :: "Exclude list \<Rightarrow> jsstring list \<Rightarrow> ErrorMap \<Rightarrow> Module \<Rightarrow> ErrorMap" where
  "scanModule excl forbiddenPatterns errorMap module =
     (case resource module of
        None \<Rightarrow> errorMap
      | Some res \<Rightarrow>
          if res = [] then errorMap
          else if shouldExclude res excl then errorMap
          else foldl (scanDependency forbiddenPatterns res) errorMap (dependenciesOf module))"

definition scanModules :: "Exclude list \<Rightarrow> jsstring list \<Rightarrow> Module list \<Rightarrow> ErrorMap" where
  "scanModules excl forbiddenPatterns modules =
     foldl (scanModule excl forbiddenPatterns) [] modules"

text \<open>
  Reading the finding: \<open>recorded errorMap res p\<close> says that the file \<open>res\<close> is a key of
  the map and that \<open>p\<close> is in its set.
\<close>

definition recorded :: "ErrorMap \<Rightarrow> jsstring \<Rightarrow> jsstring \<Rightarrow> bool" where
  "recorded errorMap res p = (case Map_get errorMap res of None \<Rightarrow> False | Some s \<Rightarrow> p \<in> set s)"

text \<open>An invariant of the scan: every set of the map holds each pattern once.\<close>

definition setsDistinct :: "ErrorMap \<Rightarrow> bool" where
  "setsDistinct errorMap = (\<forall>k S. Map_get errorMap k = Some S \<longrightarrow> distinct S)"

section \<open>The reporter\<close>

text \<open>
  What the two loops of \<open>printErrorReport\<close> change: the console, the set
  \<open>foundImports\<close> and the counter \<open>errorCount\<close>.
\<close>

record Report =
  out :: console
  foundImports :: "jsstring list"
  errorCount :: nat

definition error :: "jsstring \<Rightarrow> console" where
  "error s = [(ConsoleError, s)]"

text \<open>The body of \<open>importErrors.forEach\<close>: one diagnostic, one increment.\<close>

definition diagnostic :: "Colorizer \<Rightarrow> jsstring \<Rightarrow> ImportError \<Rightarrow> console" where
  "diagnostic c relativePath err =
     (let location =
            (if line err > 0 then js '':'' @ digits (line err) @ js '':'' @ digits (column err)
             else [])
      in error (cyan c (js ''  '' @ relativePath @ location))
         @ error (red c (js ''    '' @ [0x2716] @ js '' Forbidden import: ''
                         @ bold c (importName err)))
         @ (if lineContent err \<noteq> []
            then error (gray c (js ''    '' @ [0x2502] @ js '' '' @ lineContent err))
            else [])
         @ error [])"

definition reportError :: "Colorizer \<Rightarrow> jsstring \<Rightarrow> Report \<Rightarrow> ImportError \<Rightarrow> Report" where
  "reportError c relativePath st err =
     \<lparr>out = out st @ diagnostic c relativePath err,
      foundImports = Set_add (foundImports st) (importName err),
      errorCount = errorCount st + 1\<rparr>"

text \<open>The body of \<open>errorMap.forEach\<close>: the locator is called, then each of its records is reported.\<close>

definition reportFile ::
  "filesystem \<Rightarrow> Colorizer \<Rightarrow> jsstring \<Rightarrow> Report \<Rightarrow> jsstring \<times> jsstring list \<Rightarrow> Report" where
  "reportFile readFileSync c cwd st entry =
     (let absolutePath = fst entry;
          imports = snd entry;
          relativePath = replace absolutePath cwd [];
          result = findImportLocations readFileSync absolutePath imports;
          importErrors = snd result
      in foldl (reportError c relativePath) (st\<lparr>out := out st @ fst result\<rparr>) importErrors)"

definition header :: "Colorizer \<Rightarrow> jsstring \<Rightarrow> console" where
  "header c title =
     error []
     @ error (red c (bold c (js ''  '' @ [0x256D] @ replicate 61 0x2500 @ [0x256E])))
     @ error (red c (bold c (js ''  '' @ [0x2502] @ js ''  '' @ padEnd title 59 @ [0x2502])))
     @ error (red c (bold c (js ''  '' @ [0x2570] @ replicate 61 0x2500 @ [0x256F])))
     @ error []
     @ error (red c (bold c (js ''  '' @ [0x2716]
                             @ js '' Forbidden imports detected in source files'')))
     @ error (gray c (js ''    These imports will not work in the remote environment.''))
     @ error []"

text \<open>
  The alternatives section: one line for each found pattern whose alternative is a
  non-empty string (\<open>if (alternative)\<close>).
\<close>

definition alternativeLine ::
  "Colorizer \<Rightarrow> (jsstring \<times> jsstring) list \<Rightarrow> jsstring \<Rightarrow> console" where
  "alternativeLine c alternativesMap imp =
     (case Map_get alternativesMap imp of
        None \<Rightarrow> []
      | Some alt \<Rightarrow>
          if alt \<noteq> []
          then error (gray c (js ''    '' @ [0x2022] @ js '' '' @ imp @ js '' '' @ [0x2192]
                             @ js '' '' @ alt))
          else [])"

definition alternatives ::
  "Colorizer \<Rightarrow> (jsstring \<times> jsstring) list \<Rightarrow> jsstring list \<Rightarrow> console" where
  "alternatives c alternativesMap found =
     (if length found > 0
      then error (yellow c (js ''  Suggested alternatives:''))
           @ concat (map (alternativeLine c alternativesMap) found)
           @ error []
      else [])"

definition summary :: "nat \<Rightarrow> bool \<Rightarrow> jsstring" where
  "summary count fail =
     digits count @ js '' error(s) found.'' @ (if fail then js '' Build failed.'' else [])"

text \<open>The lookup map of the alternatives: a later rule with the same pattern replaces an earlier one.\<close>

definition alternativesMapOf :: "ForbiddenImport list \<Rightarrow> (jsstring \<times> jsstring) list" where
  "alternativesMapOf forbidden = foldl (\<lambda>m f. Map_set m (pattern f) (alternative f)) [] forbidden"

definition printErrorReport ::
  "filesystem \<Rightarrow> ErrorMap \<Rightarrow> ForbiddenImport list \<Rightarrow> ResolvedOptions \<Rightarrow> jsstring
   \<Rightarrow> console \<times> nat" where
  "printErrorReport readFileSync errorMap forbidden options cwd =
     (let c = createColorizer (colors options);
          alternativesMap = alternativesMapOf forbidden;
          st0 = \<lparr>out = header c (errorHeader options), foundImports = [], errorCount = 0\<rparr>;
          st1 = foldl (reportFile readFileSync c cwd) st0 errorMap
      in (out st1
          @ alternatives c alternativesMap (foundImports st1)
          @ error (red c (bold c (js ''  '' @ summary (errorCount st1) (failOnError options))))
          @ error [],
          errorCount st1))"

text \<open>
  For stating what the report holds: the records that the locator returns for one entry
  of the finding, those of all entries in the order of the map, and what is printed for
  one entry (the locator's warning, if any, then one diagnostic for each record).
\<close>

definition located :: "filesystem \<Rightarrow> jsstring \<times> jsstring list \<Rightarrow> ImportError list" where
  "located readFileSync entry = snd (findImportLocations readFileSync (fst entry) (snd entry))"

definition occurrences :: "filesystem \<Rightarrow> ErrorMap \<Rightarrow> ImportError list" where
  "occurrences readFileSync errorMap = concat (map (located readFileSync) errorMap)"

definition fileOutput ::
  "filesystem \<Rightarrow> Colorizer \<Rightarrow> jsstring \<Rightarrow> jsstring \<times> jsstring list \<Rightarrow> console" where
  "fileOutput readFileSync c cwd entry =
     fst (findImportLocations readFileSync (fst entry) (snd entry))
     @ concat (map (diagnostic c (replace (fst entry) cwd [])) (located readFileSync entry))"

text \<open>A string without the escape character, with which every ANSI sequence starts.\<close>

definition plain :: "jsstring \<Rightarrow> bool" where
  "plain s = (ESC \<notin> set s)"

definition plainConsole :: "console \<Rightarrow> bool" where
  "plainConsole printed = list_all (\<lambda>entry. plain (snd entry)) printed"

section \<open>The plugin\<close>

text \<open>A thrown \<open>Error\<close> with its message.\<close>

datatype exn = Error jsstring

text \<open>
  The callback on \<open>finishModules\<close>: the scan, then the report when the map is not empty,
  then the failure. It returns what was printed and how the callback ended.
\<close>

definition finishModules ::
  "ResolvedOptions \<Rightarrow> jsstring list \<Rightarrow> filesystem \<Rightarrow> jsstring \<Rightarrow> Module list
   \<Rightarrow> console \<times> (exn + unit)" where
  "finishModules resolvedOptions forbiddenPatterns readFileSync cwd modules =
     (let errorMap = scanModules (exclude resolvedOptions) forbiddenPatterns modules
      in if length errorMap > 0 then
           (let printed = printErrorReport readFileSync errorMap
                            (forbiddenImports resolvedOptions) resolvedOptions cwd;
                count = snd printed
            in if failOnError resolvedOptions \<and> count > 0
               then (fst printed,
                     Inl (Error (js ''[plugin-block-imports] '' @ digits count
                                 @ js '' forbidden import(s) detected. ''
                                 @ js ''See the error report above for details.'')))
               else (fst printed, Inr ()))
         else ([], Inr ()))"

record Plugin =
  name :: jsstring
  onFinishModules :: "filesystem \<Rightarrow> jsstring \<Rightarrow> Module list \<Rightarrow> console \<times> (exn + unit)"

definition resolveOptions :: "PluginBlockImportsOptions \<Rightarrow> ForbiddenImport list \<Rightarrow> ResolvedOptions" where
  "resolveOptions options rules =
     \<lparr>forbiddenImports = rules,
      exclude = (case opt_exclude options of None \<Rightarrow> [] | Some e \<Rightarrow> e),
      failOnError = (case opt_failOnError options of None \<Rightarrow> True | Some b \<Rightarrow> b),
      errorHeader = (case opt_errorHeader options of
                       None \<Rightarrow> js ''MODULE FEDERATION BUILD ERROR'' | Some h \<Rightarrow> h),
      colors = (case opt_colors options of None \<Rightarrow> True | Some b \<Rightarrow> b)\<rparr>"

definition pluginBlockImports :: "PluginBlockImportsOptions \<Rightarrow> exn + Plugin" where
  "pluginBlockImports options =
     (case opt_forbiddenImports options of
        Array rules \<Rightarrow>
          (let resolvedOptions = resolveOptions options rules;
               forbiddenPatterns = new_Set (map pattern (forbiddenImports resolvedOptions))
           in Inr \<lparr>name = js ''plugin-block-imports'',
                   onFinishModules = finishModules resolvedOptions forbiddenPatterns\<rparr>)
      | _ \<Rightarrow>
          Inl (Error (js ''[plugin-block-imports] forbiddenImports option is required and must be an array'')))"

section \<open>Facts about strings\<close>

lemma js_Nil: "js [] = []"
  by (simp add: js_def)

lemma js_Cons: "js (c # cs) = of_char c # js cs"
  by (simp add: js_def)

lemma js_append: "js (a @ b) = js a @ js b"
  by (simp add: js_def)

lemma startsWith_Nil: "startsWith s []"
  by (simp add: startsWith_def)

lemma startsWith_append: "startsWith s p \<longleftrightarrow> (\<exists>t. s = p @ t)"
proof
  assume "startsWith s p"
  then have "s = p @ drop (length p) s"
    by (metis append_take_drop_id startsWith_def)
  then show "\<exists>t. s = p @ t" ..
next
  assume "\<exists>t. s = p @ t"
  then show "startsWith s p"
    by (auto simp: startsWith_def)
qed

section \<open>Facts about the finding\<close>

lemma map_of_Map_set: "map_of (Map_set m k v) k' = (if k' = k then Some v else map_of m k')"
  by (induction m k v rule: Map_set.induct) auto

lemma fst_Map_set: "fst ` set (Map_set m k v) = insert k (fst ` set m)"
  by (induction m k v rule: Map_set.induct) auto

lemma distinct_Map_set: "distinct (map fst m) \<Longrightarrow> distinct (map fst (Map_set m k v))"
proof (induction m k v rule: Map_set.induct)
  case (1 k v)
  then show ?case by simp
next
  case (2 k' v' m k v)
  then show ?case
    by (auto simp: fst_Map_set)
qed

lemma Map_get_addFinding:
  "Map_get (addFinding errorMap res p) k =
     (if k = res then Some (Set_add (case Map_get errorMap res of None \<Rightarrow> [] | Some s \<Rightarrow> s) p)
      else Map_get errorMap k)"
  by (auto simp: addFinding_def Map_get_def Map_has_def map_of_Map_set Let_def split: option.splits)

lemma set_Set_add: "set (Set_add s x) = insert x (set s)"
  by (auto simp: Set_add_def)

lemma distinct_Set_add: "distinct s \<Longrightarrow> distinct (Set_add s x)"
  by (auto simp: Set_add_def)

lemma recorded_addFinding:
  "recorded (addFinding errorMap res p) k q \<longleftrightarrow> recorded errorMap k q \<or> (k = res \<and> q = p)"
  by (auto simp: recorded_def Map_get_addFinding set_Set_add split: option.splits)

lemma Map_has_addFinding:
  "Map_has (addFinding errorMap res p) k \<longleftrightarrow> Map_has errorMap k \<or> k = res"
  using Map_get_addFinding [of errorMap res p k]
  by (auto simp: Map_has_def Map_get_def)

lemma recorded_scanDependency:
  "recorded (scanDependency pats res errorMap dep) k q \<longleftrightarrow>
     recorded errorMap k q \<or> (k = res \<and> firstPattern pats (requestOf dep) = Some q)"
  by (auto simp: scanDependency_def recorded_addFinding split: option.splits)

lemma Map_has_scanDependency:
  "Map_has (scanDependency pats res errorMap dep) k \<longleftrightarrow>
     Map_has errorMap k \<or> (k = res \<and> firstPattern pats (requestOf dep) \<noteq> None)"
  by (auto simp: scanDependency_def Map_has_addFinding split: option.splits)

lemma recorded_scanDependencies:
  "recorded (foldl (scanDependency pats res) errorMap deps) k q \<longleftrightarrow>
     recorded errorMap k q \<or> (k = res \<and> (\<exists>d\<in>set deps. firstPattern pats (requestOf d) = Some q))"
  by (induction deps arbitrary: errorMap) (auto simp: recorded_scanDependency)

lemma Map_has_scanDependencies:
  "Map_has (foldl (scanDependency pats res) errorMap deps) k \<longleftrightarrow>
     Map_has errorMap k \<or> (k = res \<and> (\<exists>d\<in>set deps. firstPattern pats (requestOf d) \<noteq> None))"
  by (induction deps arbitrary: errorMap) (auto simp: Map_has_scanDependency)

lemma recorded_scanModule:
  "recorded (scanModule excl pats errorMap m) k q \<longleftrightarrow>
     recorded errorMap k q \<or>
     (resource m = Some k \<and> k \<noteq> [] \<and> \<not> shouldExclude k excl \<and>
      (\<exists>d\<in>set (dependenciesOf m). firstPattern pats (requestOf d) = Some q))"
  by (auto simp: scanModule_def recorded_scanDependencies split: option.splits)

lemma Map_has_scanModule:
  "Map_has (scanModule excl pats errorMap m) k \<longleftrightarrow>
     Map_has errorMap k \<or>
     (resource m = Some k \<and> k \<noteq> [] \<and> \<not> shouldExclude k excl \<and>
      (\<exists>d\<in>set (dependenciesOf m). firstPattern pats (requestOf d) \<noteq> None))"
  by (auto simp: scanModule_def Map_has_scanDependencies split: option.splits)

lemma recorded_foldl_scanModule:
  "recorded (foldl (scanModule excl pats) errorMap ms) k q \<longleftrightarrow>
     recorded errorMap k q \<or>
     (\<exists>m\<in>set ms. resource m = Some k \<and> k \<noteq> [] \<and> \<not> shouldExclude k excl \<and>
      (\<exists>d\<in>set (dependenciesOf m). firstPattern pats (requestOf d) = Some q))"
  by (induction ms arbitrary: errorMap) (auto simp: recorded_scanModule)

lemma Map_has_foldl_scanModule:
  "Map_has (foldl (scanModule excl pats) errorMap ms) k \<longleftrightarrow>
     Map_has errorMap k \<or>
     (\<exists>m\<in>set ms. resource m = Some k \<and> k \<noteq> [] \<and> \<not> shouldExclude k excl \<and>
      (\<exists>d\<in>set (dependenciesOf m). firstPattern pats (requestOf d) \<noteq> None))"
  by (induction ms arbitrary: errorMap) (auto simp: Map_has_scanModule)

lemma recorded_scanModules:
  "recorded (scanModules excl pats ms) k q \<longleftrightarrow>
     (\<exists>m\<in>set ms. resource m = Some k \<and> k \<noteq> [] \<and> \<not> shouldExclude k excl \<and>
      (\<exists>d\<in>set (dependenciesOf m). firstPattern pats (requestOf d) = Some q))"
  unfolding scanModules_def recorded_foldl_scanModule
  by (simp add: recorded_def Map_get_def)

lemma Map_has_scanModules:
  "Map_has (scanModules excl pats ms) k \<longleftrightarrow>
     (\<exists>m\<in>set ms. resource m = Some k \<and> k \<noteq> [] \<and> \<not> shouldExclude k excl \<and>
      (\<exists>d\<in>set (dependenciesOf m). firstPattern pats (requestOf d) \<noteq> None))"
  unfolding scanModules_def Map_has_foldl_scanModule
  by (simp add: Map_has_def)

lemma firstPattern_first:
  "startsWith r q \<Longrightarrow> \<forall>p\<in>set pre. \<not> startsWith r p \<Longrightarrow> firstPattern (pre @ q # post) r = Some q"
  by (induction pre) auto

lemma firstPattern_split:
  "firstPattern pats r = Some q \<Longrightarrow>
     \<exists>pre post. pats = pre @ q # post \<and> startsWith r q \<and> (\<forall>p\<in>set pre. \<not> startsWith r p)"
proof (induction pats)
  case Nil
  then show ?case by simp
next
  case (Cons a pats)
  show ?case
  proof (cases "startsWith r a")
    case True
    with Cons.prems have "a = q" by simp
    with True have "a # pats = [] @ q # pats \<and> startsWith r q \<and> (\<forall>p\<in>set []. \<not> startsWith r p)"
      by simp
    then show ?thesis by blast
  next
    case False
    with Cons.prems have "firstPattern pats r = Some q" by simp
    from Cons.IH [OF this] obtain pre post
      where "pats = pre @ q # post" "startsWith r q" "\<forall>p\<in>set pre. \<not> startsWith r p"
      by blast
    with False have "a # pats = (a # pre) @ q # post \<and> startsWith r q
        \<and> (\<forall>p\<in>set (a # pre). \<not> startsWith r p)"
      by simp
    then show ?thesis by blast
  qed
qed

lemma firstPattern_None: "firstPattern pats r = None \<longleftrightarrow> (\<forall>p\<in>set pats. \<not> startsWith r p)"
  by (induction pats) auto

lemma recorded_iff: "recorded errorMap k q \<longleftrightarrow> (\<exists>S. Map_get errorMap k = Some S \<and> q \<in> set S)"
  by (auto simp: recorded_def split: option.splits)

lemma Map_has_iff: "Map_has errorMap k \<longleftrightarrow> Map_get errorMap k \<noteq> None"
  by (simp add: Map_has_def Map_get_def)

lemma setsDistinct_addFinding: "setsDistinct errorMap \<Longrightarrow> setsDistinct (addFinding errorMap res p)"
  by (auto simp: setsDistinct_def Map_get_addFinding distinct_Set_add split: option.splits if_splits)

lemma setsDistinct_scanDependency:
  "setsDistinct errorMap \<Longrightarrow> setsDistinct (scanDependency pats res errorMap dep)"
  by (auto simp: scanDependency_def setsDistinct_addFinding split: option.splits)

lemma setsDistinct_scanDependencies:
  "setsDistinct errorMap \<Longrightarrow> setsDistinct (foldl (scanDependency pats res) errorMap deps)"
  by (induction deps arbitrary: errorMap) (auto simp: setsDistinct_scanDependency)

lemma setsDistinct_scanModule:
  "setsDistinct errorMap \<Longrightarrow> setsDistinct (scanModule excl pats errorMap m)"
  by (auto simp: scanModule_def setsDistinct_scanDependencies split: option.splits)

lemma setsDistinct_foldl_scanModule:
  "setsDistinct errorMap \<Longrightarrow> setsDistinct (foldl (scanModule excl pats) errorMap ms)"
  by (induction ms arbitrary: errorMap) (auto simp: setsDistinct_scanModule)

lemma setsDistinct_scanModules: "setsDistinct (scanModules excl pats ms)"
  unfolding scanModules_def
  by (rule setsDistinct_foldl_scanModule) (simp add: setsDistinct_def Map_get_def)

lemma keysDistinct_addFinding:
  "distinct (map fst errorMap) \<Longrightarrow> distinct (map fst (addFinding errorMap res p))"
  by (auto simp: addFinding_def Let_def distinct_Map_set split: option.splits)

lemma keysDistinct_scanDependencies:
  "distinct (map fst errorMap) \<Longrightarrow> distinct (map fst (foldl (scanDependency pats res) errorMap deps))"
  by (induction deps arbitrary: errorMap)
     (auto simp: scanDependency_def keysDistinct_addFinding split: option.splits)

lemma keysDistinct_foldl_scanModule:
  "distinct (map fst errorMap) \<Longrightarrow> distinct (map fst (foldl (scanModule excl pats) errorMap ms))"
  by (induction ms arbitrary: errorMap)
     (auto simp: scanModule_def keysDistinct_scanDependencies split: option.splits)

lemma keysDistinct_scanModules: "distinct (map fst (scanModules excl pats ms))"
  unfolding scanModules_def by (rule keysDistinct_foldl_scanModule) simp

section \<open>The scanner: what the finding holds\<close>

text \<open>
  Claim C1. Take a module of the graph whose resource is present, not empty and not
  excluded, and one of its dependencies with request string \<open>r\<close>
  (\<open>dep.request || dep.userRequest || ''\<close>). If \<open>r\<close> starts with a registered
  pattern, the resource is a key of the finding, and its set holds the first pattern, in
  registration order, that \<open>r\<close> starts with; the set holds no pattern twice. If \<open>r\<close>
  starts with no registered pattern, scanning the dependency leaves the map as it was.
  A file none of whose dependency requests starts with a registered pattern is not a
  key of the finding. No file is a key twice.
\<close>

theorem scanModules_finding:
  "(module \<in> set modules \<and> resource module = Some res \<and> res \<noteq> [] \<and> \<not> shouldExclude res excl
      \<and> dep \<in> set (dependenciesOf module) \<and> (\<exists>p\<in>set pats. startsWith (requestOf dep) p)
    \<longrightarrow> (\<exists>pre q post S.
           pats = pre @ q # post \<and> startsWith (requestOf dep) q
           \<and> (\<forall>p\<in>set pre. \<not> startsWith (requestOf dep) p)
           \<and> Map_get (scanModules excl pats modules) res = Some S \<and> q \<in> set S \<and> distinct S))
   \<and> ((\<forall>p\<in>set pats. \<not> startsWith (requestOf dep) p)
    \<longrightarrow> scanDependency pats res errorMap dep = errorMap)
   \<and> ((\<forall>m\<in>set modules. resource m = Some res
           \<longrightarrow> (\<forall>d\<in>set (dependenciesOf m). \<forall>p\<in>set pats. \<not> startsWith (requestOf d) p))
    \<longrightarrow> Map_get (scanModules excl pats modules) res = None)
   \<and> distinct (map fst (scanModules excl pats modules))"
proof (intro conjI impI)
  assume a: "module \<in> set modules \<and> resource module = Some res \<and> res \<noteq> []
    \<and> \<not> shouldExclude res excl \<and> dep \<in> set (dependenciesOf module)
    \<and> (\<exists>p\<in>set pats. startsWith (requestOf dep) p)"
  then have "firstPattern pats (requestOf dep) \<noteq> None"
    by (simp add: firstPattern_None)
  then obtain q where q: "firstPattern pats (requestOf dep) = Some q"
    by blast
  from firstPattern_split [OF q] obtain pre post
    where split: "pats = pre @ q # post" "startsWith (requestOf dep) q"
      "\<forall>p\<in>set pre. \<not> startsWith (requestOf dep) p"
    by blast
  from a q have "recorded (scanModules excl pats modules) res q"
    unfolding recorded_scanModules by blast
  then obtain S where S: "Map_get (scanModules excl pats modules) res = Some S" "q \<in> set S"
    by (auto simp: recorded_iff)
  with setsDistinct_scanModules have "distinct S"
    by (auto simp: setsDistinct_def)
  with split S show "\<exists>pre q post S.
           pats = pre @ q # post \<and> startsWith (requestOf dep) q
           \<and> (\<forall>p\<in>set pre. \<not> startsWith (requestOf dep) p)
           \<and> Map_get (scanModules excl pats modules) res = Some S \<and> q \<in> set S \<and> distinct S"
    by blast
next
  assume "\<forall>p\<in>set pats. \<not> startsWith (requestOf dep) p"
  then have "firstPattern pats (requestOf dep) = None"
    by (simp add: firstPattern_None)
  then show "scanDependency pats res errorMap dep = errorMap"
    by (simp add: scanDependency_def)
next
  assume a: "\<forall>m\<in>set modules. resource m = Some res
           \<longrightarrow> (\<forall>d\<in>set (dependenciesOf m). \<forall>p\<in>set pats. \<not> startsWith (requestOf d) p)"
  have "\<not> Map_has (scanModules excl pats modules) res"
    unfolding Map_has_scanModules using a by (auto simp: firstPattern_None)
  then show "Map_get (scanModules excl pats modules) res = None"
    by (simp add: Map_has_iff)
next
  show "distinct (map fst (scanModules excl pats modules))"
    by (rule keysDistinct_scanModules)
qed

theorem scanModules_finding_witness:
  "(\<exists>pre q post S.
       [js ''next/link'', js ''next/image'', js ''next/image/foo''] = pre @ q # post
       \<and> startsWith (js ''next/image/foo'') q
       \<and> Map_get (scanModules [] [js ''next/link'', js ''next/image'', js ''next/image/foo'']
            [\<lparr>resource = Some (js ''/app/a.ts''),
              dependencies = Some [\<lparr>request = Some (js ''next/image/foo''), userRequest = None\<rparr>]\<rparr>,
             \<lparr>resource = Some (js ''/app/b.ts''),
              dependencies = Some [\<lparr>request = None, userRequest = Some (js ''react'')\<rparr>]\<rparr>])
           (js ''/app/a.ts'') = Some S
       \<and> q \<in> set S \<and> distinct S)
   \<and> scanDependency [js ''next/link'', js ''next/image'', js ''next/image/foo''] (js ''/app/b.ts'') []
         \<lparr>request = None, userRequest = Some (js ''react'')\<rparr> = []
   \<and> Map_get (scanModules [] [js ''next/link'', js ''next/image'', js ''next/image/foo'']
            [\<lparr>resource = Some (js ''/app/a.ts''),
              dependencies = Some [\<lparr>request = Some (js ''next/image/foo''), userRequest = None\<rparr>]\<rparr>,
             \<lparr>resource = Some (js ''/app/b.ts''),
              dependencies = Some [\<lparr>request = None, userRequest = Some (js ''react'')\<rparr>]\<rparr>])
           (js ''/app/b.ts'') = None"
proof -
  let ?pats = "[js ''next/link'', js ''next/image'', js ''next/image/foo'']"
  let ?a = "\<lparr>resource = Some (js ''/app/a.ts''),
              dependencies = Some [\<lparr>request = Some (js ''next/image/foo''), userRequest = None\<rparr>]\<rparr>"
  let ?b = "\<lparr>resource = Some (js ''/app/b.ts''),
              dependencies = Some [\<lparr>request = None, userRequest = Some (js ''react'')\<rparr>]\<rparr>"
  have ex: "\<not> shouldExclude (js ''/app/a.ts'') []"
    by (simp add: shouldExclude_def js_def startsWith_def)
  have r1: "requestOf \<lparr>request = Some (js ''next/image/foo''), userRequest = None\<rparr> = js ''next/image/foo''"
    by (simp add: requestOf_def orElse_def js_def)
  have r2: "requestOf \<lparr>request = None, userRequest = Some (js ''react'')\<rparr> = js ''react''"
    by (simp add: requestOf_def orElse_def js_def)
  have m1: "startsWith (js ''next/image/foo'') (js ''next/image'')"
    by (simp add: js_def startsWith_def)
  have n2: "\<forall>p\<in>set ?pats. \<not> startsWith (js ''react'') p"
    by (simp add: js_def startsWith_def)
  have ne: "js ''/app/a.ts'' \<noteq> js ''/app/b.ts''" "js ''/app/a.ts'' \<noteq> []"
    by (simp_all add: js_def)
  note t1 = scanModules_finding [where module = ?a and modules = "[?a, ?b]" and res = "js ''/app/a.ts''"
      and excl = "[]" and pats = ?pats and errorMap = "[]"
      and dep = "\<lparr>request = Some (js ''next/image/foo''), userRequest = None\<rparr>"]
  note t2 = scanModules_finding [where module = ?b and modules = "[?a, ?b]" and res = "js ''/app/b.ts''"
      and excl = "[]" and pats = ?pats and errorMap = "[]"
      and dep = "\<lparr>request = None, userRequest = Some (js ''react'')\<rparr>"]
  have c1: "\<exists>pre q post S.
       ?pats = pre @ q # post
       \<and> startsWith (js ''next/image/foo'') q
       \<and> Map_get (scanModules [] ?pats [?a, ?b]) (js ''/app/a.ts'') = Some S
       \<and> q \<in> set S \<and> distinct S"
    using t1 ex m1 ne by (simp add: dependenciesOf_def r1) blast
  have c2: "scanDependency ?pats (js ''/app/b.ts'') [] \<lparr>request = None, userRequest = Some (js ''react'')\<rparr> = []"
    using t2 n2 by (simp add: r2)
  have c3: "Map_get (scanModules [] ?pats [?a, ?b]) (js ''/app/b.ts'') = None"
    using t2 n2 ne by (simp add: dependenciesOf_def r2)
  from c1 c2 c3 show ?thesis by blast
qed

section \<open>The scanner: node_modules\<close>

lemma shouldExclude_node_modules:
  "includes_js path (js ''node_modules'') \<Longrightarrow> shouldExclude path excl"
  by (simp add: shouldExclude_def)

text \<open>
  Claim C6. A file whose path contains \<open>node_modules\<close> is excluded whatever the
  configured exclusion rules are; it is never a key of the finding, whatever the module
  graph, the patterns and its dependency requests are; and scanning a module with such a
  resource leaves the map as it was, so its dependencies are not looked at.
\<close>

theorem node_modules_never_scanned:
  assumes "includes_js path (js ''node_modules'')"
  shows "shouldExclude path excl
       \<and> Map_get (scanModules excl pats modules) path = None
       \<and> scanModule excl pats errorMap \<lparr>resource = Some path, dependencies = deps\<rparr> = errorMap"
proof -
  have ex: "shouldExclude path excl"
    using assms by (rule shouldExclude_node_modules)
  then have "\<not> Map_has (scanModules excl pats modules) path"
    unfolding Map_has_scanModules by blast
  then have "Map_get (scanModules excl pats modules) path = None"
    by (simp add: Map_has_iff)
  moreover have "scanModule excl pats errorMap \<lparr>resource = Some path, dependencies = deps\<rparr> = errorMap"
    using ex by (simp add: scanModule_def)
  ultimately show ?thesis using ex by simp
qed

theorem node_modules_never_scanned_witness:
  "includes_js (js ''/app/node_modules/next/link.js'') (js ''node_modules'')
   \<and> shouldExclude (js ''/app/node_modules/next/link.js'') []
   \<and> Map_get (scanModules [] [js ''next/''] 
          [\<lparr>resource = Some (js ''/app/node_modules/next/link.js''),
            dependencies = Some [\<lparr>request = Some (js ''next/router''), userRequest = None\<rparr>]\<rparr>])
        (js ''/app/node_modules/next/link.js'') = None"
proof -
  have h: "includes_js (js ''/app/node_modules/next/link.js'') (js ''node_modules'')"
    by (simp add: js_def startsWith_def)
  from node_modules_never_scanned [OF h] h show ?thesis
    by blast
qed

section \<open>The scanner: a rule with the empty pattern\<close>

lemma set_foldl_Set_add: "set (foldl Set_add acc xs) = set acc \<union> set xs"
  by (induction xs arbitrary: acc) (auto simp: set_Set_add)

lemma set_new_Set: "set (new_Set xs) = set xs"
  by (simp add: new_Set_def set_foldl_Set_add)

lemma distinct_foldl_Set_add: "distinct acc \<Longrightarrow> distinct (foldl Set_add acc xs)"
  by (induction xs arbitrary: acc) (auto simp: distinct_Set_add)

lemma distinct_new_Set: "distinct (new_Set xs)"
  by (simp add: new_Set_def distinct_foldl_Set_add)

lemma firstPattern_empty:
  "firstPattern pats r = Some [] \<longleftrightarrow>
     (\<exists>pre post. pats = pre @ [] # post \<and> (\<forall>p\<in>set pre. \<not> startsWith r p))"
proof
  assume "firstPattern pats r = Some []"
  from firstPattern_split [OF this] show "\<exists>pre post. pats = pre @ [] # post \<and> (\<forall>p\<in>set pre. \<not> startsWith r p)"
    by blast
next
  assume "\<exists>pre post. pats = pre @ [] # post \<and> (\<forall>p\<in>set pre. \<not> startsWith r p)"
  then obtain pre post where "pats = pre @ [] # post" "\<forall>p\<in>set pre. \<not> startsWith r p"
    by blast
  then show "firstPattern pats r = Some []"
    using firstPattern_first [of r "[]" pre post] by (simp add: startsWith_Nil)
qed

lemma firstPattern_in: "firstPattern pats r = Some q \<Longrightarrow> q \<in> set pats \<and> startsWith r q"
  by (induction pats) (auto split: if_splits)

text \<open>
  Claim C10, as the code has it. Setup accepts a rule whose pattern is the empty string.
  With such a rule registered, every request string starts with a registered pattern, so
  every module whose resource is present, not empty and not excluded and which has a
  dependency becomes a key of the finding, and its set holds the first registered pattern
  that the request starts with. The empty pattern is in the set of a file exactly when
  one of the file's dependency requests starts with no pattern registered before the
  empty one; this holds for a request that starts with no non-empty registered pattern,
  such as the empty request of a dependency without request fields.
\<close>

theorem empty_pattern_rule:
  assumes "opt_forbiddenImports options = Array rules"
    and "rule \<in> set rules" and "pattern rule = []"
    and "pats = new_Set (map pattern rules)"
    and "module \<in> set modules" and "resource module = Some res" and "res \<noteq> []"
    and "\<not> shouldExclude res excl" and "dep \<in> set (dependenciesOf module)"
  shows "(\<exists>plugin. pluginBlockImports options = Inr plugin
            \<and> onFinishModules plugin = finishModules (resolveOptions options rules) pats)
       \<and> [] \<in> set pats
       \<and> (\<exists>q S. firstPattern pats (requestOf dep) = Some q
              \<and> Map_get (scanModules excl pats modules) res = Some S \<and> q \<in> set S)
       \<and> (recorded (scanModules excl pats modules) res [] \<longleftrightarrow>
            (\<exists>m\<in>set modules. resource m = Some res
               \<and> (\<exists>d\<in>set (dependenciesOf m). \<exists>pre post.
                     pats = pre @ [] # post \<and> (\<forall>p\<in>set pre. \<not> startsWith (requestOf d) p))))
       \<and> ((\<forall>r\<in>set rules. pattern r \<noteq> [] \<longrightarrow> \<not> startsWith (requestOf dep) (pattern r))
            \<longrightarrow> recorded (scanModules excl pats modules) res [])"
proof (intro conjI impI)
  show "\<exists>plugin. pluginBlockImports options = Inr plugin
            \<and> onFinishModules plugin = finishModules (resolveOptions options rules) pats"
    using assms(1,4) by (simp add: pluginBlockImports_def Let_def resolveOptions_def)
next
  show mem: "[] \<in> set pats"
    using assms(2,3,4) by (force simp: set_new_Set)
  have "startsWith (requestOf dep) []"
    by (rule startsWith_Nil)
  with mem have "\<exists>p\<in>set pats. startsWith (requestOf dep) p"
    by blast
  then have "firstPattern pats (requestOf dep) \<noteq> None"
    by (simp add: firstPattern_None)
  then obtain q where q: "firstPattern pats (requestOf dep) = Some q"
    by blast
  with assms have "recorded (scanModules excl pats modules) res q"
    unfolding recorded_scanModules by blast
  with q show "\<exists>q S. firstPattern pats (requestOf dep) = Some q
              \<and> Map_get (scanModules excl pats modules) res = Some S \<and> q \<in> set S"
    by (auto simp: recorded_iff)
  show "recorded (scanModules excl pats modules) res [] \<longleftrightarrow>
            (\<exists>m\<in>set modules. resource m = Some res
               \<and> (\<exists>d\<in>set (dependenciesOf m). \<exists>pre post.
                     pats = pre @ [] # post \<and> (\<forall>p\<in>set pre. \<not> startsWith (requestOf d) p)))"
    unfolding recorded_scanModules firstPattern_empty using assms(7,8) by blast
  assume none: "\<forall>r\<in>set rules. pattern r \<noteq> [] \<longrightarrow> \<not> startsWith (requestOf dep) (pattern r)"
  from firstPattern_in [OF q] have "q \<in> set pats" "startsWith (requestOf dep) q"
    by simp_all
  with none assms(4) have "q = []"
    by (auto simp: set_new_Set)
  with q assms show "recorded (scanModules excl pats modules) res []"
    unfolding recorded_scanModules by blast
qed

theorem empty_pattern_rule_witness:
  "(\<exists>plugin. pluginBlockImports
        \<lparr>opt_forbiddenImports = Array
           [\<lparr>pattern = js ''next/link'', alternative = js ''a'', reason = None\<rparr>,
            \<lparr>pattern = [], alternative = js ''b'', reason = None\<rparr>],
         opt_exclude = None, opt_failOnError = None, opt_errorHeader = None,
         opt_colors = None\<rparr> = Inr plugin)
   \<and> [] \<in> set (new_Set (map pattern
           [\<lparr>pattern = js ''next/link'', alternative = js ''a'', reason = None\<rparr>,
            \<lparr>pattern = [], alternative = js ''b'', reason = None\<rparr>]))
   \<and> recorded
       (scanModules []
         (new_Set (map pattern
            [\<lparr>pattern = js ''next/link'', alternative = js ''a'', reason = None\<rparr>,
             \<lparr>pattern = [], alternative = js ''b'', reason = None\<rparr>]))
         [\<lparr>resource = Some (js ''/app/a.ts''),
           dependencies = Some [\<lparr>request = None, userRequest = None\<rparr>]\<rparr>])
       (js ''/app/a.ts'') []"
proof -
  let ?rules = "[\<lparr>pattern = js ''next/link'', alternative = js ''a'', reason = None\<rparr>,
            \<lparr>pattern = [], alternative = js ''b'', reason = None\<rparr>]"
  let ?options = "\<lparr>opt_forbiddenImports = Array ?rules,
         opt_exclude = None, opt_failOnError = None, opt_errorHeader = None,
         opt_colors = None\<rparr>"
  let ?dep = "\<lparr>request = None, userRequest = None\<rparr>"
  let ?module = "\<lparr>resource = Some (js ''/app/a.ts''), dependencies = Some [?dep]\<rparr>"
  have h1: "opt_forbiddenImports ?options = Array ?rules"
    by simp
  have h2: "\<lparr>pattern = [], alternative = js ''b'', reason = None\<rparr> \<in> set ?rules"
    by simp
  have h3: "pattern \<lparr>pattern = [], alternative = js ''b'', reason = None\<rparr> = []"
    by simp
  have h5: "?module \<in> set [?module]"
    by simp
  have h6: "resource ?module = Some (js ''/app/a.ts'')"
    by simp
  have h7: "js ''/app/a.ts'' \<noteq> []"
    by (simp add: js_def)
  have h8: "\<not> shouldExclude (js ''/app/a.ts'') []"
    by (simp add: shouldExclude_def js_def startsWith_def)
  have h9: "?dep \<in> set (dependenciesOf ?module)"
    by (simp add: dependenciesOf_def)
  have h10: "\<forall>r\<in>set ?rules. pattern r \<noteq> [] \<longrightarrow> \<not> startsWith (requestOf ?dep) (pattern r)"
    by (simp add: requestOf_def orElse_def js_def startsWith_def)
  from empty_pattern_rule [OF h1 h2 h3 refl h5 h6 h7 h8 h9] h10 show ?thesis
    by blast
qed

text \<open>
  Claim C10 as the specification states it says that the empty pattern is in the set of
  every such module. The loop over the patterns breaks at the first match: with
  \<open>next/link\<close> registered before the empty pattern, the request \<open>next/link\<close> records
  \<open>next/link\<close> and not the empty pattern.
\<close>

theorem empty_pattern_not_recorded:
  "scanModules []
     (new_Set (map pattern
        [\<lparr>pattern = js ''next/link'', alternative = js ''a'', reason = None\<rparr>,
         \<lparr>pattern = [], alternative = js ''b'', reason = None\<rparr>]))
     [\<lparr>resource = Some (js ''/app/a.ts''),
       dependencies = Some [\<lparr>request = Some (js ''next/link''), userRequest = None\<rparr>]\<rparr>]
   = [(js ''/app/a.ts'', [js ''next/link''])]
   \<and> \<not> recorded
       (scanModules []
         (new_Set (map pattern
            [\<lparr>pattern = js ''next/link'', alternative = js ''a'', reason = None\<rparr>,
             \<lparr>pattern = [], alternative = js ''b'', reason = None\<rparr>]))
         [\<lparr>resource = Some (js ''/app/a.ts''),
           dependencies = Some [\<lparr>request = Some (js ''next/link''), userRequest = None\<rparr>]\<rparr>])
       (js ''/app/a.ts'') []"
  by (simp add: scanModules_def scanModule_def scanDependency_def dependenciesOf_def
      requestOf_def orElse_def addFinding_def Map_has_def Map_get_def Set_add_def new_Set_def
      shouldExclude_def recorded_def js_def startsWith_def Let_def)

section \<open>Facts about the locator\<close>

lemma unescape_plain: "c \<noteq> 92 \<Longrightarrow> unescape (c # rest) = c # unescape rest"
  by (cases rest) simp_all

lemma backslash_syntax: "92 \<in> set syntaxChars"
  by (simp add: syntaxChars_def)

lemma escape_Cons:
  "escape (c # cs) = (if c \<in> set syntaxChars then [92, c] else [c]) @ escape cs"
  by (simp add: escape_def)

lemma unescape_escape: "unescape (escape p) = p"
proof (induction p)
  case Nil
  then show ?case by (simp add: escape_def)
next
  case (Cons c cs)
  show ?case
  proof (cases "c \<in> set syntaxChars")
    case True
    then show ?thesis using Cons by (simp add: escape_Cons)
  next
    case False
    with backslash_syntax have "c \<noteq> 92" by auto
    with False Cons show ?thesis by (simp add: escape_Cons unescape_plain)
  qed
qed

lemma literalSource_plain:
  "c \<notin> set syntaxChars \<Longrightarrow> literalSource (c # rest) = literalSource rest"
proof (cases rest)
  case Nil
  assume "c \<notin> set syntaxChars"
  with Nil show ?thesis by simp
next
  case (Cons d ds)
  assume a: "c \<notin> set syntaxChars"
  with backslash_syntax have "c \<noteq> 92" by auto
  with a Cons show ?thesis by simp
qed

lemma escape_literal: "literalSource (escape p)"
proof (induction p)
  case Nil
  then show ?case by (simp add: escape_def)
next
  case (Cons c cs)
  then show ?case
    by (cases "c \<in> set syntaxChars") (simp_all add: escape_Cons literalSource_plain)
qed

lemma star_lang: "t \<in> set (star k s) \<longleftrightarrow> (\<exists>u. s = u @ t \<and> (\<forall>c\<in>set u. in_class k c))"
proof (induction s)
  case Nil
  then show ?case by auto
next
  case (Cons c cs)
  show ?case
  proof
    assume "t \<in> set (star k (c # cs))"
    then consider "in_class k c" "t \<in> set (star k cs)" | "t = c # cs"
      by (auto split: if_splits)
    then show "\<exists>u. c # cs = u @ t \<and> (\<forall>c\<in>set u. in_class k c)"
    proof cases
      case 1
      with Cons obtain u where "cs = u @ t" "\<forall>c\<in>set u. in_class k c" by blast
      with 1 have "c # cs = (c # u) @ t \<and> (\<forall>x\<in>set (c # u). in_class k x)" by simp
      then show ?thesis by blast
    next
      case 2
      then have "c # cs = [] @ t \<and> (\<forall>x\<in>set []. in_class k x)" by simp
      then show ?thesis by blast
    qed
  next
    assume "\<exists>u. c # cs = u @ t \<and> (\<forall>c\<in>set u. in_class k c)"
    then obtain u where u: "c # cs = u @ t" "\<forall>c\<in>set u. in_class k c" by blast
    show "t \<in> set (star k (c # cs))"
    proof (cases u)
      case Nil
      with u have "t = c # cs" by simp
      then show ?thesis by simp
    next
      case (Cons d ds)
      with u have "d = c" "cs = ds @ t" "in_class k c" "\<forall>x\<in>set ds. in_class k x" by simp_all
      with Cons.IH show ?thesis by auto
    qed
  qed
qed

lemma rmatch_lang: "t \<in> set (rmatch r s) \<longleftrightarrow> (\<exists>u\<in>lang r. s = u @ t)"
proof (induction r arbitrary: s t)
  case (Lit p)
  show ?case
    by (auto simp: startsWith_append)
next
  case (One k)
  show ?case
    by (cases s) (auto split: if_splits)
next
  case (Star k)
  show ?case
    by (auto simp: star_lang)
next
  case (Plus k)
  show ?case
  proof (cases s)
    case Nil
    then show ?thesis by auto
  next
    case (Cons c cs)
    show ?thesis
    proof
      assume "t \<in> set (rmatch (Plus k) s)"
      with Cons have c: "in_class k c" and "t \<in> set (star k cs)"
        by (simp_all split: if_splits)
      then obtain u where "cs = u @ t" "\<forall>x\<in>set u. in_class k x"
        by (auto simp: star_lang)
      with Cons c have "c # u \<in> lang (Plus k) \<and> s = (c # u) @ t" by simp
      then show "\<exists>u\<in>lang (Plus k). s = u @ t" by blast
    next
      assume "\<exists>u\<in>lang (Plus k). s = u @ t"
      then obtain u where u: "u \<noteq> []" "\<forall>x\<in>set u. in_class k x" "s = u @ t" by auto
      then obtain d ds where "u = d # ds" by (cases u) auto
      with u Cons have "in_class k c" "cs = ds @ t" "\<forall>x\<in>set ds. in_class k x" by simp_all
      with Cons show "t \<in> set (rmatch (Plus k) s)"
        by (auto simp: star_lang)
    qed
  qed
next
  case (Opt r)
  then show ?case by auto
next
  case (Seq a b)
  show ?case
  proof
    assume "t \<in> set (rmatch (Seq a b) s)"
    then obtain m where "m \<in> set (rmatch a s)" "t \<in> set (rmatch b m)" by auto
    with Seq obtain u v where "u \<in> lang a" "s = u @ m" "v \<in> lang b" "m = v @ t" by blast
    then have "u @ v \<in> lang (Seq a b) \<and> s = (u @ v) @ t" by auto
    then show "\<exists>u\<in>lang (Seq a b). s = u @ t" by blast
  next
    assume "\<exists>u\<in>lang (Seq a b). s = u @ t"
    then obtain u v where uv: "u \<in> lang a" "v \<in> lang b" "s = (u @ v) @ t" by auto
    then have "v @ t \<in> set (rmatch a s)" using Seq.IH(1) [of "v @ t" s] by auto
    moreover from uv have "t \<in> set (rmatch b (v @ t))" using Seq.IH(2) [of t "v @ t"] by auto
    ultimately show "t \<in> set (rmatch (Seq a b) s)" by auto
  qed
qed

lemma rmatch_nonempty_lang: "rmatch r s \<noteq> [] \<longleftrightarrow> (\<exists>u\<in>lang r. \<exists>t. s = u @ t)"
proof -
  have "rmatch r s \<noteq> [] \<longleftrightarrow> (\<exists>t. t \<in> set (rmatch r s))"
    by (cases "rmatch r s") auto
  then show ?thesis
    unfolding rmatch_lang by blast
qed

lemma search_Some:
  "search r s i = Some k \<Longrightarrow>
     i \<le> k \<and> k - i \<le> length s \<and> rmatch r (drop (k - i) s) \<noteq> []
     \<and> (\<forall>j<k - i. rmatch r (drop j s) = [])"
proof (induction s arbitrary: i)
  case Nil
  then show ?case by (simp split: if_splits)
next
  case (Cons c cs)
  show ?case
  proof (cases "rmatch r (c # cs) \<noteq> []")
    case True
    with Cons.prems show ?thesis by simp
  next
    case False
    with Cons.prems have "search r cs (Suc i) = Some k" by simp
    from Cons.IH [OF this] have ih: "Suc i \<le> k" "k - Suc i \<le> length cs"
      "rmatch r (drop (k - Suc i) cs) \<noteq> []" "\<forall>j<k - Suc i. rmatch r (drop j cs) = []"
      by simp_all
    from ih(1) have ki: "k - i = Suc (k - Suc i)" by simp
    have "\<forall>j<k - i. rmatch r (drop j (c # cs)) = []"
    proof (intro allI impI)
      fix j assume "j < k - i"
      show "rmatch r (drop j (c # cs)) = []"
      proof (cases j)
        case 0
        with False show ?thesis by simp
      next
        case (Suc j')
        with \<open>j < k - i\<close> ki have "j' < k - Suc i" by simp
        with ih(4) Suc show ?thesis by simp
      qed
    qed
    with ih ki show ?thesis by simp
  qed
qed

lemma search_None:
  "search r s i = None \<Longrightarrow> \<forall>j\<le>length s. rmatch r (drop j s) = []"
proof (induction s arbitrary: i)
  case Nil
  then show ?case by (simp split: if_splits)
next
  case (Cons c cs)
  from Cons.prems have no: "rmatch r (c # cs) = []" and rest: "search r cs (Suc i) = None"
    by (simp_all split: if_splits)
  from Cons.IH [OF rest] have ih: "\<forall>j\<le>length cs. rmatch r (drop j cs) = []" .
  show ?case
  proof (intro allI impI)
    fix j assume "j \<le> length (c # cs)"
    then show "rmatch r (drop j (c # cs)) = []"
      using no ih by (cases j) simp_all
  qed
qed

lemma match_Some:
  "match s r = Some k \<Longrightarrow>
     k \<le> length s \<and> rmatch r (drop k s) \<noteq> [] \<and> (\<forall>j<k. rmatch r (drop j s) = [])"
  using search_Some [of r s 0 k] by (simp add: match_def)

lemma match_None: "match s r = None \<Longrightarrow> \<forall>j\<le>length s. rmatch r (drop j s) = []"
  using search_None [of r s 0] by (simp add: match_def)

lemma firstForm_patterns:
  "firstForm (patterns e) l =
     (case match l (fromForm e) of
        Some k \<Rightarrow> Some k
      | None \<Rightarrow> (case match l (requireForm e) of
                   Some k \<Rightarrow> Some k
                 | None \<Rightarrow> match l (importForm e)))"
  by (simp add: patterns_def split: option.splits)

lemma checkPattern_append: "checkPattern l i errs p = errs @ checkPattern l i [] p"
  by (simp add: checkPattern_def split: option.splits)

lemma foldl_checkPattern:
  "foldl (checkPattern l i) errs imps = errs @ concat (map (checkPattern l i []) imps)"
proof (induction imps arbitrary: errs)
  case Nil
  then show ?case by simp
next
  case (Cons p ps)
  show ?case
    using Cons [of "checkPattern l i errs p"] checkPattern_append [of l i errs p] by simp
qed

lemma checkLine_append:
  "checkLine imps errs z = errs @ concat (map (checkPattern (fst z) (snd z) []) imps)"
  by (simp add: checkLine_def foldl_checkPattern)

lemma foldl_checkLine:
  "foldl (checkLine imps) errs zs =
     errs @ concat (map (\<lambda>z. concat (map (checkPattern (fst z) (snd z) []) imps)) zs)"
proof (induction zs arbitrary: errs)
  case Nil
  then show ?case by simp
next
  case (Cons z zs)
  show ?case
    using Cons [of "checkLine imps errs z"] checkLine_append [of imps errs z] by simp
qed

lemma checkLines_concat:
  "checkLines imps lines =
     concat (map (\<lambda>z. concat (map (checkPattern (fst z) (snd z) []) imps))
       (zip lines [0 ..< length lines]))"
  by (simp add: checkLines_def foldl_checkLine)

lemma in_checkPattern:
  "e \<in> set (checkPattern l i [] p) \<longleftrightarrow>
     (\<exists>k. firstForm (patterns (escape p)) l = Some k
        \<and> e = \<lparr>importName = p, line = i + 1, column = k, lineContent = trim l\<rparr>)"
  by (auto simp: checkPattern_def split: option.splits)

lemma in_zip_upt:
  "(l, i) \<in> set (zip lines [0 ..< length lines]) \<longleftrightarrow> i < length lines \<and> l = lines ! i"
  by (auto simp: set_zip)

lemma in_checkLines:
  "e \<in> set (checkLines imps lines) \<longleftrightarrow>
     (\<exists>i<length lines. \<exists>p\<in>set imps. \<exists>k.
        firstForm (patterns (escape p)) (lines ! i) = Some k
        \<and> e = \<lparr>importName = p, line = i + 1, column = k, lineContent = trim (lines ! i)\<rparr>)"
proof -
  have "e \<in> set (checkLines imps lines) \<longleftrightarrow>
      (\<exists>z\<in>set (zip lines [0 ..< length lines]). \<exists>p\<in>set imps.
          e \<in> set (checkPattern (fst z) (snd z) [] p))"
    by (auto simp: checkLines_concat)
  also have "\<dots> \<longleftrightarrow> (\<exists>i<length lines. \<exists>p\<in>set imps.
          e \<in> set (checkPattern (lines ! i) i [] p))"
    using in_zip_upt [of _ _ lines] by (metis prod.collapse fst_conv snd_conv)
  finally show ?thesis
    by (simp add: in_checkPattern)
qed

lemma checkPattern_cases:
  "checkPattern l i [] p = [] \<or>
   (\<exists>k. checkPattern l i [] p = [\<lparr>importName = p, line = i + 1, column = k, lineContent = trim l\<rparr>])"
  by (simp add: checkPattern_def split: option.splits)

lemma in_line_records:
  "e \<in> set (concat (map (checkPattern l i []) imps)) \<Longrightarrow> line e = i + 1 \<and> importName e \<in> set imps"
  by (auto simp: in_checkPattern)

lemma distinct_line_records:
  "distinct imps \<Longrightarrow>
     distinct (map (\<lambda>e. (line e, importName e)) (concat (map (checkPattern l i []) imps)))"
proof (induction imps)
  case Nil
  then show ?case by simp
next
  case (Cons p ps)
  then have ih: "distinct (map (\<lambda>e. (line e, importName e)) (concat (map (checkPattern l i []) ps)))"
    and new: "p \<notin> set ps"
    by simp_all
  have other: "\<forall>e\<in>set (concat (map (checkPattern l i []) ps)). importName e \<noteq> p"
    using new in_line_records [of _ l i ps] by blast
  from checkPattern_cases [of l i p] show ?case
  proof
    assume "checkPattern l i [] p = []"
    with ih show ?thesis by simp
  next
    assume "\<exists>k. checkPattern l i [] p =
      [\<lparr>importName = p, line = i + 1, column = k, lineContent = trim l\<rparr>]"
    then obtain k where "checkPattern l i [] p =
      [\<lparr>importName = p, line = i + 1, column = k, lineContent = trim l\<rparr>]" ..
    with ih other show ?thesis by auto
  qed
qed

lemma distinct_file_records:
  "distinct (map snd zs) \<Longrightarrow> distinct imps \<Longrightarrow>
     distinct (map (\<lambda>e. (line e, importName e))
       (concat (map (\<lambda>z. concat (map (checkPattern (fst z) (snd z) []) imps)) zs)))"
proof (induction zs)
  case Nil
  then show ?case by simp
next
  case (Cons z zs)
  then have ih: "distinct (map (\<lambda>e. (line e, importName e))
       (concat (map (\<lambda>z. concat (map (checkPattern (fst z) (snd z) []) imps)) zs)))"
    and new: "snd z \<notin> snd ` set zs"
    by simp_all
  have here: "distinct (map (\<lambda>e. (line e, importName e))
      (concat (map (checkPattern (fst z) (snd z) []) imps)))"
    using Cons.prems(2) by (rule distinct_line_records)
  have apart: "line e \<noteq> line e'"
    if "e \<in> set (concat (map (checkPattern (fst z) (snd z) []) imps))"
      and "e' \<in> set (concat (map (\<lambda>z. concat (map (checkPattern (fst z) (snd z) []) imps)) zs))"
    for e e'
  proof -
    from that(1) have l1: "line e = snd z + 1"
      using in_line_records by blast
    from that(2) obtain z' where z': "z' \<in> set zs"
      and "e' \<in> set (concat (map (checkPattern (fst z') (snd z') []) imps))"
      by auto
    then have "line e' = snd z' + 1"
      using in_line_records by blast
    moreover from z' new have "snd z \<noteq> snd z'"
      by (metis imageI)
    ultimately show ?thesis using l1 by simp
  qed
  from ih here apart show ?case
    by (auto simp: distinct_map inj_on_def) 
qed

lemma distinct_checkLines:
  "distinct imps \<Longrightarrow> distinct (map (\<lambda>e. (line e, importName e)) (checkLines imps lines))"
  unfolding checkLines_concat
  by (rule distinct_file_records) (simp_all add: map_snd_zip_take)

lemmas rx_eval = js_def startsWith_def match_def patterns_def fromForm_def requireForm_def
  importForm_def specifier_def escape_def syntaxChars_def isSpace_def

lemma example_line_match:
  "firstForm (patterns (escape (js ''next/image''))) (js ''import Image from 'next/image';'') = Some 13"
  by (simp add: rx_eval)

lemma example_line_trim:
  "trim (js ''import Image from 'next/image';'') = js ''import Image from 'next/image';''"
  by (simp add: trim_def js_def isSpace_def)

section \<open>The locator on a readable file\<close>

text \<open>
  What the locator returns for a file that can be read: no warning, and exactly one record
  for each line \<open>i\<close> (counted from 0) of the text split at line feeds and each requested
  pattern \<open>p\<close> for which one of the three forms matches the line, with the pattern, the
  line number \<open>i + 1\<close>, the column and the trimmed line. With the patterns of a set, no
  two records have the same line and pattern. The forms are tried in the order
  from-quote, require-call, dynamic-import-call, and the first that matches gives the
  column, which is the index, from 0, of the leftmost position of the line at which that
  form matches; a form matches at a position exactly when a string of its language
  starts there. The escaped pattern is read back as the pattern itself.
\<close>

lemma findImportLocations_records:
  assumes "readFileSync filePath = Some content"
  shows "fst (findImportLocations readFileSync filePath imps) = []
   \<and> (\<forall>e. e \<in> set (snd (findImportLocations readFileSync filePath imps)) \<longleftrightarrow>
          (\<exists>i<length (split content). \<exists>p\<in>set imps. \<exists>k.
              firstForm (patterns (escape p)) (split content ! i) = Some k
              \<and> e = \<lparr>importName = p, line = i + 1, column = k,
                      lineContent = trim (split content ! i)\<rparr>))
   \<and> (distinct imps \<longrightarrow>
        distinct (map (\<lambda>e. (line e, importName e))
                   (snd (findImportLocations readFileSync filePath imps))))
   \<and> (\<forall>l p. firstForm (patterns (escape p)) l =
          (case match l (fromForm (escape p)) of
             Some k \<Rightarrow> Some k
           | None \<Rightarrow> (case match l (requireForm (escape p)) of
                        Some k \<Rightarrow> Some k
                      | None \<Rightarrow> match l (importForm (escape p)))))
   \<and> (\<forall>l r k. match l r = Some k \<longrightarrow>
          k \<le> length l \<and> rmatch r (drop k l) \<noteq> [] \<and> (\<forall>j<k. rmatch r (drop j l) = []))
   \<and> (\<forall>r s. rmatch r s \<noteq> [] \<longleftrightarrow> (\<exists>u\<in>lang r. \<exists>t. s = u @ t))
   \<and> (\<forall>p. unescape (escape p) = p)"
proof -
  have res: "findImportLocations readFileSync filePath imps = ([], checkLines imps (split content))"
    using assms by (simp add: findImportLocations_def)
  show ?thesis
    unfolding res
    by (simp add: in_checkLines distinct_checkLines firstForm_patterns match_Some
        unescape_escape rmatch_nonempty_lang)
qed

lemma readme_lines:
  "split ([10, 10, 10, 10] @ js ''import Image from 'next/image';'' @ [10]
          @ js ''import { useTranslations } from 'next-intl';'' @ [10]
          @ js ''  const legacy = require(\"next/image/legacy\");  '' @ [10]
          @ js ''const intl = await import( 'next-intl/server' );'')
   = [[], [], [], [],
      js ''import Image from 'next/image';'',
      js ''import { useTranslations } from 'next-intl';'',
      js ''  const legacy = require(\"next/image/legacy\");  '',
      js ''const intl = await import( 'next-intl/server' );'']"
  by (simp add: js_def LF_def)

lemma readme_matches:
  "firstForm (patterns (escape (js ''next/image''))) [] = None"
  "firstForm (patterns (escape (js ''next-intl''))) [] = None"
  "firstForm (patterns (escape (js ''next-intl''))) (js ''import Image from 'next/image';'') = None"
  "firstForm (patterns (escape (js ''next/image'')))
     (js ''import { useTranslations } from 'next-intl';'') = None"
  "firstForm (patterns (escape (js ''next-intl'')))
     (js ''import { useTranslations } from 'next-intl';'') = Some 27"
  "firstForm (patterns (escape (js ''next/image'')))
     (js ''  const legacy = require(\"next/image/legacy\");  '') = Some 17"
  "firstForm (patterns (escape (js ''next-intl'')))
     (js ''  const legacy = require(\"next/image/legacy\");  '') = None"
  "firstForm (patterns (escape (js ''next/image'')))
     (js ''const intl = await import( 'next-intl/server' );'') = None"
  "firstForm (patterns (escape (js ''next-intl'')))
     (js ''const intl = await import( 'next-intl/server' );'') = Some 19"
  by (simp_all add: rx_eval)

lemma readme_trims:
  "trim (js ''import { useTranslations } from 'next-intl';'')
     = js ''import { useTranslations } from 'next-intl';''"
  "trim (js ''  const legacy = require(\"next/image/legacy\");  '')
     = js ''const legacy = require(\"next/image/legacy\");''"
  "trim (js ''const intl = await import( 'next-intl/server' );'')
     = js ''const intl = await import( 'next-intl/server' );''"
  by (simp_all add: trim_def js_def isSpace_def)

text \<open>
  Claim C4. The claim says that for the pattern \<open>next/image\<close> and a file whose line 5 is
  \<open>import Image from 'next/image';\<close> the record has line 5, column 0 and that text, and
  the example output of the README prints \<open>:5:0\<close> for this line and \<open>:6:0\<close> for
  \<open>import { useTranslations } from 'next-intl';\<close> on line 6. The code gives other
  columns. On a file with four empty lines, these two lines, a \<open>require\<close> call between
  spaces on line 7 and a dynamic \<open>import\<close> on line 8, the locator returns the four
  records with the right lines and trimmed texts, but with the columns 13, 27, 17 and
  19: each is the index at which the word \<open>from\<close>, \<open>require\<close> or \<open>import\<close> of the
  matching form starts, not the start of the statement. For the first record the report
  prints \<open>:5:13\<close> after the path, where the README prints \<open>:5:0\<close>.
\<close>

theorem readme_example_columns:
  "findImportLocations
     (\<lambda>p. Some ([10, 10, 10, 10] @ js ''import Image from 'next/image';'' @ [10]
          @ js ''import { useTranslations } from 'next-intl';'' @ [10]
          @ js ''  const legacy = require(\"next/image/legacy\");  '' @ [10]
          @ js ''const intl = await import( 'next-intl/server' );''))
     (js ''/app/src/components/MyComponent.tsx'') [js ''next/image'', js ''next-intl'']
   = ([],
      [\<lparr>importName = js ''next/image'', line = 5, column = 13,
         lineContent = js ''import Image from 'next/image';''\<rparr>,
       \<lparr>importName = js ''next-intl'', line = 6, column = 27,
         lineContent = js ''import { useTranslations } from 'next-intl';''\<rparr>,
       \<lparr>importName = js ''next/image'', line = 7, column = 17,
         lineContent = js ''const legacy = require(\"next/image/legacy\");''\<rparr>,
       \<lparr>importName = js ''next-intl'', line = 8, column = 19,
         lineContent = js ''const intl = await import( 'next-intl/server' );''\<rparr>])
   \<and> diagnostic (createColorizer False) (js ''/src/components/MyComponent.tsx'')
       \<lparr>importName = js ''next/image'', line = 5, column = 13,
         lineContent = js ''import Image from 'next/image';''\<rparr>
     = [(ConsoleError, js ''  /src/components/MyComponent.tsx:5:13''),
        (ConsoleError, js ''    '' @ [0x2716] @ js '' Forbidden import: next/image''),
        (ConsoleError, js ''    '' @ [0x2502] @ js '' import Image from 'next/image';''),
        (ConsoleError, [])]
   \<and> js ''  /src/components/MyComponent.tsx:5:13'' \<noteq> js ''  /src/components/MyComponent.tsx:5:0''"
proof (intro conjI)
  have "checkLines [js ''next/image'', js ''next-intl'']
      [[], [], [], [],
       js ''import Image from 'next/image';'',
       js ''import { useTranslations } from 'next-intl';'',
       js ''  const legacy = require(\"next/image/legacy\");  '',
       js ''const intl = await import( 'next-intl/server' );'']
    = [\<lparr>importName = js ''next/image'', line = 5, column = 13,
         lineContent = js ''import Image from 'next/image';''\<rparr>,
       \<lparr>importName = js ''next-intl'', line = 6, column = 27,
         lineContent = js ''import { useTranslations } from 'next-intl';''\<rparr>,
       \<lparr>importName = js ''next/image'', line = 7, column = 17,
         lineContent = js ''const legacy = require(\"next/image/legacy\");''\<rparr>,
       \<lparr>importName = js ''next-intl'', line = 8, column = 19,
         lineContent = js ''const intl = await import( 'next-intl/server' );''\<rparr>]"
    by (simp add: checkLines_def checkLine_def checkPattern_def readme_matches readme_trims
        example_line_match example_line_trim upt_rec)
  then show "findImportLocations
     (\<lambda>p. Some ([10, 10, 10, 10] @ js ''import Image from 'next/image';'' @ [10]
          @ js ''import { useTranslations } from 'next-intl';'' @ [10]
          @ js ''  const legacy = require(\"next/image/legacy\");  '' @ [10]
          @ js ''const intl = await import( 'next-intl/server' );''))
     (js ''/app/src/components/MyComponent.tsx'') [js ''next/image'', js ''next-intl'']
   = ([],
      [\<lparr>importName = js ''next/image'', line = 5, column = 13,
         lineContent = js ''import Image from 'next/image';''\<rparr>,
       \<lparr>importName = js ''next-intl'', line = 6, column = 27,
         lineContent = js ''import { useTranslations } from 'next-intl';''\<rparr>,
       \<lparr>importName = js ''next/image'', line = 7, column = 17,
         lineContent = js ''const legacy = require(\"next/image/legacy\");''\<rparr>,
       \<lparr>importName = js ''next-intl'', line = 8, column = 19,
         lineContent = js ''const intl = await import( 'next-intl/server' );''\<rparr>])"
    by (simp only: findImportLocations_def option.case readme_lines)
  show "diagnostic (createColorizer False) (js ''/src/components/MyComponent.tsx'')
       \<lparr>importName = js ''next/image'', line = 5, column = 13,
         lineContent = js ''import Image from 'next/image';''\<rparr>
     = [(ConsoleError, js ''  /src/components/MyComponent.tsx:5:13''),
        (ConsoleError, js ''    '' @ [0x2716] @ js '' Forbidden import: next/image''),
        (ConsoleError, js ''    '' @ [0x2502] @ js '' import Image from 'next/image';''),
        (ConsoleError, [])]"
    by (simp add: diagnostic_def Let_def error_def createColorizer_def digits.simps js_def)
  show "js ''  /src/components/MyComponent.tsx:5:13'' \<noteq> js ''  /src/components/MyComponent.tsx:5:0''"
    by (simp add: js_def)
qed

section \<open>Facts about the reporter\<close>

lemma foldl_reportError:
  "foldl (reportError c rel) st errs =
     \<lparr>out = out st @ concat (map (diagnostic c rel) errs),
      foundImports = foldl Set_add (foundImports st) (map importName errs),
      errorCount = errorCount st + length errs\<rparr>"
proof (induction errs arbitrary: st)
  case Nil
  then show ?case by simp
next
  case (Cons e es)
  show ?case
    unfolding foldl_Cons Cons [of "reportError c rel st e"]
    by (simp add: reportError_def)
qed

lemma reportFile_eq:
  "reportFile readFileSync c cwd st entry =
     \<lparr>out = out st @ fileOutput readFileSync c cwd entry,
      foundImports = foldl Set_add (foundImports st) (map importName (located readFileSync entry)),
      errorCount = errorCount st + length (located readFileSync entry)\<rparr>"
  by (simp add: reportFile_def Let_def foldl_reportError fileOutput_def located_def)

lemma foldl_reportFile:
  "foldl (reportFile readFileSync c cwd) st errorMap =
     \<lparr>out = out st @ concat (map (fileOutput readFileSync c cwd) errorMap),
      foundImports = foldl Set_add (foundImports st)
                       (map importName (occurrences readFileSync errorMap)),
      errorCount = errorCount st + length (occurrences readFileSync errorMap)\<rparr>"
proof (induction errorMap arbitrary: st)
  case Nil
  then show ?case by (simp add: occurrences_def)
next
  case (Cons entry rest)
  have occ: "occurrences readFileSync (entry # rest) =
      located readFileSync entry @ occurrences readFileSync rest"
    by (simp add: occurrences_def)
  show ?case
    unfolding foldl_Cons Cons [of "reportFile readFileSync c cwd st entry"] occ
    by (simp add: reportFile_eq)
qed

lemma printErrorReport_eq:
  "printErrorReport readFileSync errorMap forbidden options cwd =
     (header (createColorizer (colors options)) (errorHeader options)
      @ concat (map (fileOutput readFileSync (createColorizer (colors options)) cwd) errorMap)
      @ alternatives (createColorizer (colors options)) (alternativesMapOf forbidden)
          (new_Set (map importName (occurrences readFileSync errorMap)))
      @ error (red (createColorizer (colors options)) (bold (createColorizer (colors options))
          (js ''  '' @ summary (length (occurrences readFileSync errorMap)) (failOnError options))))
      @ error [],
      length (occurrences readFileSync errorMap))"
  by (simp add: printErrorReport_def Let_def foldl_reportFile new_Set_def)

lemma example_two_lines:
  "split (js ''import Image from 'next/image';'' @ [10]
          @ js ''import { useTranslations } from 'next-intl';'')
   = [js ''import Image from 'next/image';'', js ''import { useTranslations } from 'next-intl';'']"
  by (simp add: js_def LF_def)

lemma diagnostic_lines:
  "diagnostic c rel =
     (\<lambda>err.
        [(ConsoleError, cyan c (js ''  '' @ rel
            @ (if 0 < line err then js '':'' @ digits (line err) @ js '':'' @ digits (column err)
               else []))),
         (ConsoleError, red c (js ''    '' @ [0x2716] @ js '' Forbidden import: ''
            @ bold c (importName err)))]
        @ (if lineContent err \<noteq> []
           then [(ConsoleError, gray c (js ''    '' @ [0x2502] @ js '' '' @ lineContent err))]
           else [])
        @ [(ConsoleError, [])])"
  by (rule ext) (simp add: diagnostic_def Let_def error_def)

lemma length_diagnostic:
  "length (diagnostic c rel err) = (if lineContent err \<noteq> [] then 4 else 3)"
  by (simp add: diagnostic_lines)

lemma length_diagnostics:
  "length (concat (map (diagnostic c rel) errs))
     = sum_list (map (\<lambda>err. if lineContent err \<noteq> [] then 4 else 3) errs)"
  by (induction errs) (simp_all add: length_diagnostic)

lemma example_two_located:
  "checkLines [js ''next/image'', js ''next-intl'']
     [js ''import Image from 'next/image';'', js ''import { useTranslations } from 'next-intl';'']
   = [\<lparr>importName = js ''next/image'', line = 1, column = 13,
        lineContent = js ''import Image from 'next/image';''\<rparr>,
      \<lparr>importName = js ''next-intl'', line = 2, column = 27,
        lineContent = js ''import { useTranslations } from 'next-intl';''\<rparr>]"
proof -
  have a: "firstForm (patterns (escape (js ''next/image''))) (js ''import Image from 'next/image';'') = Some 13"
    by (rule example_line_match)
  have b: "firstForm (patterns (escape (js ''next-intl''))) (js ''import Image from 'next/image';'') = None"
    by (simp add: rx_eval)
  have c: "firstForm (patterns (escape (js ''next/image''))) (js ''import { useTranslations } from 'next-intl';'') = None"
    by (simp add: rx_eval)
  have d: "firstForm (patterns (escape (js ''next-intl''))) (js ''import { useTranslations } from 'next-intl';'') = Some 27"
    by (simp add: rx_eval)
  have t: "trim (js ''import { useTranslations } from 'next-intl';'')
      = js ''import { useTranslations } from 'next-intl';''"
    by (simp add: trim_def js_def isSpace_def)
  show ?thesis
    by (simp add: checkLines_def checkLine_def checkPattern_def a b c d t example_line_trim upt_rec)
qed

lemma default_alternatives:
  "Map_get (alternativesMapOf NEXTJS_FORBIDDEN_IMPORTS) (js ''next/image'')
     = Some (js ''<img src=\"...\"> with proper sizing'')"
  "Map_get (alternativesMapOf NEXTJS_FORBIDDEN_IMPORTS) (js ''next-intl'')
     = Some (js ''react-intl, i18next, or react-i18next'')"
  by (simp_all add: alternativesMapOf_def NEXTJS_FORBIDDEN_IMPORTS_def Map_get_def js_def)

section \<open>The reporter: the error count and the summary\<close>

text \<open>
  Claim C3. The count that \<open>printErrorReport\<close> returns is the number of records that the
  locator returned over all entries of the finding. The printed report is the header,
  then for each entry of the finding the locator's warning, if any, and one diagnostic
  for each of its records, then the alternatives, then the summary line and an empty
  line. A diagnostic is printed for every record: the line with the path and the
  position, the line \<open>Forbidden import:\<close> with the pattern, the line with the source text
  when there is one, and an empty line, so three or four lines for each record. So the
  count is the number of diagnostics printed, not the number of files or of patterns.
  The summary line is \<open>N error(s) found.\<close> after two spaces, with \<open>Build failed.\<close>
  appended exactly when \<open>failOnError\<close> is set. For one file with the two patterns
  \<open>next/image\<close> and \<open>next-intl\<close>, each imported on one line, the count is 2, and with
  the default rules and colors disabled the report is the header, the two diagnostics,
  the two alternatives and the summary \<open>2 error(s) found. Build failed.\<close>
\<close>

theorem printErrorReport_count:
  "snd (printErrorReport readFileSync errorMap forbidden options cwd)
     = length (occurrences readFileSync errorMap)
   \<and> fst (printErrorReport readFileSync errorMap forbidden options cwd)
     = header (createColorizer (colors options)) (errorHeader options)
       @ concat (map (fileOutput readFileSync (createColorizer (colors options)) cwd) errorMap)
       @ alternatives (createColorizer (colors options)) (alternativesMapOf forbidden)
           (new_Set (map importName (occurrences readFileSync errorMap)))
       @ [(ConsoleError,
           red (createColorizer (colors options)) (bold (createColorizer (colors options))
             (js ''  '' @ digits (length (occurrences readFileSync errorMap))
              @ js '' error(s) found.''
              @ (if failOnError options then js '' Build failed.'' else [])))),
          (ConsoleError, [])]
   \<and> fileOutput readFileSync c cwd entry
     = fst (findImportLocations readFileSync (fst entry) (snd entry))
       @ concat (map
           (\<lambda>err.
              [(ConsoleError, cyan c (js ''  '' @ replace (fst entry) cwd []
                  @ (if 0 < line err
                     then js '':'' @ digits (line err) @ js '':'' @ digits (column err)
                     else []))),
               (ConsoleError, red c (js ''    '' @ [0x2716] @ js '' Forbidden import: ''
                  @ bold c (importName err)))]
              @ (if lineContent err \<noteq> []
                 then [(ConsoleError, gray c (js ''    '' @ [0x2502] @ js '' '' @ lineContent err))]
                 else [])
              @ [(ConsoleError, [])])
           (snd (findImportLocations readFileSync (fst entry) (snd entry))))
   \<and> length (fileOutput readFileSync c cwd entry)
     = length (fst (findImportLocations readFileSync (fst entry) (snd entry)))
       + sum_list (map (\<lambda>err. if lineContent err \<noteq> [] then 4 else 3)
           (snd (findImportLocations readFileSync (fst entry) (snd entry))))
   \<and> occurrences readFileSync errorMap
     = concat (map (\<lambda>entry. snd (findImportLocations readFileSync (fst entry) (snd entry)))
         errorMap)
   \<and> snd (printErrorReport
       (\<lambda>p. Some (js ''import Image from 'next/image';'' @ [10]
                   @ js ''import { useTranslations } from 'next-intl';''))
       [(js ''/app/src/a.tsx'', [js ''next/image'', js ''next-intl''])]
       forbidden options cwd) = 2
   \<and> printErrorReport
       (\<lambda>p. Some (js ''import Image from 'next/image';'' @ [10]
                   @ js ''import { useTranslations } from 'next-intl';''))
       [(js ''/app/src/a.tsx'', [js ''next/image'', js ''next-intl''])]
       NEXTJS_FORBIDDEN_IMPORTS
       \<lparr>forbiddenImports = NEXTJS_FORBIDDEN_IMPORTS, exclude = [], failOnError = True,
        errorHeader = js ''MODULE FEDERATION BUILD ERROR'', colors = False\<rparr>
       (js ''/app'')
     = (header (createColorizer False) (js ''MODULE FEDERATION BUILD ERROR'')
        @ [(ConsoleError, js ''  /src/a.tsx:1:13''),
           (ConsoleError, js ''    '' @ [0x2716] @ js '' Forbidden import: next/image''),
           (ConsoleError, js ''    '' @ [0x2502] @ js '' import Image from 'next/image';''),
           (ConsoleError, []),
           (ConsoleError, js ''  /src/a.tsx:2:27''),
           (ConsoleError, js ''    '' @ [0x2716] @ js '' Forbidden import: next-intl''),
           (ConsoleError, js ''    '' @ [0x2502]
              @ js '' import { useTranslations } from 'next-intl';''),
           (ConsoleError, []),
           (ConsoleError, js ''  Suggested alternatives:''),
           (ConsoleError, js ''    '' @ [0x2022] @ js '' next/image '' @ [0x2192]
              @ js '' <img src=\"...\"> with proper sizing''),
           (ConsoleError, js ''    '' @ [0x2022] @ js '' next-intl '' @ [0x2192]
              @ js '' react-intl, i18next, or react-i18next''),
           (ConsoleError, []),
           (ConsoleError, js ''  2 error(s) found. Build failed.''),
           (ConsoleError, [])],
        2)"
proof (intro conjI)
  let ?fs = "\<lambda>p::jsstring. Some (js ''import Image from 'next/image';'' @ [10]
                   @ js ''import { useTranslations } from 'next-intl';'')"
  let ?map = "[(js ''/app/src/a.tsx'', [js ''next/image'', js ''next-intl''])]"
  let ?r1 = "\<lparr>importName = js ''next/image'', line = 1, column = 13,
        lineContent = js ''import Image from 'next/image';''\<rparr>"
  let ?r2 = "\<lparr>importName = js ''next-intl'', line = 2, column = 27,
        lineContent = js ''import { useTranslations } from 'next-intl';''\<rparr>"
  show "snd (printErrorReport readFileSync errorMap forbidden options cwd)
     = length (occurrences readFileSync errorMap)"
    by (simp add: printErrorReport_eq)
  show "fst (printErrorReport readFileSync errorMap forbidden options cwd)
     = header (createColorizer (colors options)) (errorHeader options)
       @ concat (map (fileOutput readFileSync (createColorizer (colors options)) cwd) errorMap)
       @ alternatives (createColorizer (colors options)) (alternativesMapOf forbidden)
           (new_Set (map importName (occurrences readFileSync errorMap)))
       @ [(ConsoleError,
           red (createColorizer (colors options)) (bold (createColorizer (colors options))
             (js ''  '' @ digits (length (occurrences readFileSync errorMap))
              @ js '' error(s) found.''
              @ (if failOnError options then js '' Build failed.'' else [])))),
          (ConsoleError, [])]"
    by (simp add: printErrorReport_eq summary_def error_def)
  show "fileOutput readFileSync c cwd entry
     = fst (findImportLocations readFileSync (fst entry) (snd entry))
       @ concat (map
           (\<lambda>err.
              [(ConsoleError, cyan c (js ''  '' @ replace (fst entry) cwd []
                  @ (if 0 < line err
                     then js '':'' @ digits (line err) @ js '':'' @ digits (column err)
                     else []))),
               (ConsoleError, red c (js ''    '' @ [0x2716] @ js '' Forbidden import: ''
                  @ bold c (importName err)))]
              @ (if lineContent err \<noteq> []
                 then [(ConsoleError, gray c (js ''    '' @ [0x2502] @ js '' '' @ lineContent err))]
                 else [])
              @ [(ConsoleError, [])])
           (snd (findImportLocations readFileSync (fst entry) (snd entry))))"
    unfolding fileOutput_def located_def diagnostic_lines ..
  show "length (fileOutput readFileSync c cwd entry)
     = length (fst (findImportLocations readFileSync (fst entry) (snd entry)))
       + sum_list (map (\<lambda>err. if lineContent err \<noteq> [] then 4 else 3)
           (snd (findImportLocations readFileSync (fst entry) (snd entry))))"
    unfolding fileOutput_def located_def by (simp only: length_append length_diagnostics)
  show "occurrences readFileSync errorMap
     = concat (map (\<lambda>entry. snd (findImportLocations readFileSync (fst entry) (snd entry)))
         errorMap)"
    unfolding occurrences_def by (rule arg_cong [where f = concat]) (simp add: located_def)
  have loc: "findImportLocations ?fs (js ''/app/src/a.tsx'') [js ''next/image'', js ''next-intl'']
      = ([], [?r1, ?r2])"
    by (simp only: findImportLocations_def option.case example_two_lines example_two_located)
  have occ: "occurrences ?fs ?map = [?r1, ?r2]"
    by (simp only: occurrences_def located_def loc list.map concat.simps fst_conv snd_conv
        append_Nil2)
  show "snd (printErrorReport ?fs ?map forbidden options cwd) = 2"
    by (simp only: printErrorReport_eq snd_conv occ) simp
  have rel: "replace (js ''/app/src/a.tsx'') (js ''/app'') [] = js ''/src/a.tsx''"
    by (simp add: js_def startsWith_def)
  have out1: "fileOutput ?fs (createColorizer False) (js ''/app'') (js ''/app/src/a.tsx'',
        [js ''next/image'', js ''next-intl''])
      = [(ConsoleError, js ''  /src/a.tsx:1:13''),
           (ConsoleError, js ''    '' @ [0x2716] @ js '' Forbidden import: next/image''),
           (ConsoleError, js ''    '' @ [0x2502] @ js '' import Image from 'next/image';''),
           (ConsoleError, []),
           (ConsoleError, js ''  /src/a.tsx:2:27''),
           (ConsoleError, js ''    '' @ [0x2716] @ js '' Forbidden import: next-intl''),
           (ConsoleError, js ''    '' @ [0x2502]
              @ js '' import { useTranslations } from 'next-intl';''),
           (ConsoleError, [])]"
    by (simp only: fileOutput_def located_def fst_conv snd_conv loc rel)
       (simp add: diagnostic_lines createColorizer_def digits.simps js_def)
  have found: "new_Set (map importName [?r1, ?r2]) = [js ''next/image'', js ''next-intl'']"
    "new_Set [js ''next/image'', js ''next-intl''] = [js ''next/image'', js ''next-intl'']"
    by (simp_all add: new_Set_def Set_add_def js_def)
  have alts: "alternatives (createColorizer False) (alternativesMapOf NEXTJS_FORBIDDEN_IMPORTS)
        [js ''next/image'', js ''next-intl'']
      = [(ConsoleError, js ''  Suggested alternatives:''),
           (ConsoleError, js ''    '' @ [0x2022] @ js '' next/image '' @ [0x2192]
              @ js '' <img src=\"...\"> with proper sizing''),
           (ConsoleError, js ''    '' @ [0x2022] @ js '' next-intl '' @ [0x2192]
              @ js '' react-intl, i18next, or react-i18next''),
           (ConsoleError, [])]"
    by (simp add: alternatives_def alternativeLine_def default_alternatives error_def
          createColorizer_def)
       (simp add: js_def)
  have summ: "error (red (createColorizer False) (bold (createColorizer False)
        (js ''  '' @ summary 2 True)))
      = [(ConsoleError, js ''  2 error(s) found. Build failed.'')]"
    by (simp add: summary_def digits.simps js_def error_def createColorizer_def)
  have two: "length [?r1, ?r2] = 2"
    by simp
  have body: "concat (map (fileOutput ?fs (createColorizer False) (js ''/app'')) ?map)
      = [(ConsoleError, js ''  /src/a.tsx:1:13''),
           (ConsoleError, js ''    '' @ [0x2716] @ js '' Forbidden import: next/image''),
           (ConsoleError, js ''    '' @ [0x2502] @ js '' import Image from 'next/image';''),
           (ConsoleError, []),
           (ConsoleError, js ''  /src/a.tsx:2:27''),
           (ConsoleError, js ''    '' @ [0x2716] @ js '' Forbidden import: next-intl''),
           (ConsoleError, js ''    '' @ [0x2502]
              @ js '' import { useTranslations } from 'next-intl';''),
           (ConsoleError, [])]"
    by (simp only: list.map concat.simps append_Nil2 out1)
  have alts': "alternatives (createColorizer False) (alternativesMapOf NEXTJS_FORBIDDEN_IMPORTS)
        (new_Set (map importName [?r1, ?r2]))
      = [(ConsoleError, js ''  Suggested alternatives:''),
           (ConsoleError, js ''    '' @ [0x2022] @ js '' next/image '' @ [0x2192]
              @ js '' <img src=\"...\"> with proper sizing''),
           (ConsoleError, js ''    '' @ [0x2022] @ js '' next-intl '' @ [0x2192]
              @ js '' react-intl, i18next, or react-i18next''),
           (ConsoleError, [])]"
    by (simp only: found(1) alts)
  show "printErrorReport ?fs ?map NEXTJS_FORBIDDEN_IMPORTS
       \<lparr>forbiddenImports = NEXTJS_FORBIDDEN_IMPORTS, exclude = [], failOnError = True,
        errorHeader = js ''MODULE FEDERATION BUILD ERROR'', colors = False\<rparr>
       (js ''/app'')
     = (header (createColorizer False) (js ''MODULE FEDERATION BUILD ERROR'')
        @ [(ConsoleError, js ''  /src/a.tsx:1:13''),
           (ConsoleError, js ''    '' @ [0x2716] @ js '' Forbidden import: next/image''),
           (ConsoleError, js ''    '' @ [0x2502] @ js '' import Image from 'next/image';''),
           (ConsoleError, []),
           (ConsoleError, js ''  /src/a.tsx:2:27''),
           (ConsoleError, js ''    '' @ [0x2716] @ js '' Forbidden import: next-intl''),
           (ConsoleError, js ''    '' @ [0x2502]
              @ js '' import { useTranslations } from 'next-intl';''),
           (ConsoleError, []),
           (ConsoleError, js ''  Suggested alternatives:''),
           (ConsoleError, js ''    '' @ [0x2022] @ js '' next/image '' @ [0x2192]
              @ js '' <img src=\"...\"> with proper sizing''),
           (ConsoleError, js ''    '' @ [0x2022] @ js '' next-intl '' @ [0x2192]
              @ js '' react-intl, i18next, or react-i18next''),
           (ConsoleError, []),
           (ConsoleError, js ''  2 error(s) found. Build failed.''),
           (ConsoleError, [])],
        2)"
    by (simp only: printErrorReport_eq ResolvedOptions.simps occ two body alts' summ)
       (simp add: error_def)
qed

section \<open>The plugin: failing the build\<close>

lemma digits_small: "n < 10 \<Longrightarrow> digits n = [48 + n]"
  by (simp add: digits.simps)

lemmas scan_eval = scanModules_def scanModule_def scanDependency_def dependenciesOf_def
  requestOf_def orElse_def addFinding_def Map_has_def Map_get_def Set_add_def
  shouldExclude_def Let_def js_def startsWith_def

text \<open>
  Claim C2. When the finding is not empty, so that the reporter runs, \<open>failOnError\<close> is
  set and the count that the reporter returned is positive, the callback ends by throwing
  an error whose message is \<open>[plugin-block-imports] N forbidden import(s) detected. See
  the error report above for details.\<close> with the count for \<open>N\<close>; what it has printed by
  then is the whole report of \<open>printErrorReport\<close>, down to the summary line with the same
  \<open>N\<close> and the empty line after it. When \<open>failOnError\<close> is not set the callback throws
  nothing, whatever was reported. The callback throws in no other case, and prints
  nothing when the finding is empty.
\<close>

theorem finishModules_failure:
  assumes "errorMap = scanModules (exclude resolvedOptions) pats modules"
    and "report = printErrorReport readFileSync errorMap (forbiddenImports resolvedOptions)
                    resolvedOptions cwd"
  shows
   "(errorMap \<noteq> [] \<and> failOnError resolvedOptions \<and> 0 < snd report
      \<longrightarrow> finishModules resolvedOptions pats readFileSync cwd modules =
            (fst report,
             Inl (Error (js ''[plugin-block-imports] '' @ digits (snd report)
                         @ js '' forbidden import(s) detected. See the error report above for details.'')))
          \<and> (\<exists>before. fst report =
                before
                @ error (red (createColorizer (colors resolvedOptions))
                          (bold (createColorizer (colors resolvedOptions))
                            (js ''  '' @ digits (snd report) @ js '' error(s) found. Build failed.'')))
                @ error []))
    \<and> (\<not> failOnError resolvedOptions
      \<longrightarrow> snd (finishModules resolvedOptions pats readFileSync cwd modules) = Inr ())
    \<and> (\<forall>e. snd (finishModules resolvedOptions pats readFileSync cwd modules) = Inl e
      \<longrightarrow> errorMap \<noteq> [] \<and> failOnError resolvedOptions \<and> 0 < snd report)
    \<and> (errorMap = [] \<longrightarrow> finishModules resolvedOptions pats readFileSync cwd modules = ([], Inr ()))"
proof -
  let ?c = "createColorizer (colors resolvedOptions)"
  have count: "snd report = length (occurrences readFileSync errorMap)"
    unfolding assms(2) printErrorReport_eq by simp
  have built: "js '' error(s) found.'' @ js '' Build failed.'' = js '' error(s) found. Build failed.''"
    by (simp add: js_def)
  have tail: "fst report =
      (header ?c (errorHeader resolvedOptions)
       @ concat (map (fileOutput readFileSync ?c cwd) errorMap)
       @ alternatives ?c (alternativesMapOf (forbiddenImports resolvedOptions))
           (new_Set (map importName (occurrences readFileSync errorMap))))
      @ error (red ?c (bold ?c
                  (js ''  '' @ digits (snd report) @ js '' error(s) found. Build failed.'')))
      @ error []"
    if "failOnError resolvedOptions"
    unfolding count unfolding assms(2) printErrorReport_eq summary_def using that
    by (simp add: built)
  have run: "finishModules resolvedOptions pats readFileSync cwd modules =
      (if errorMap \<noteq> [] then
         if failOnError resolvedOptions \<and> 0 < snd report
         then (fst report,
               Inl (Error (js ''[plugin-block-imports] '' @ digits (snd report)
                     @ js '' forbidden import(s) detected. '' @ js ''See the error report above for details.'')))
         else (fst report, Inr ())
       else ([], Inr ()))"
    unfolding assms finishModules_def Let_def by simp
  have msg: "js '' forbidden import(s) detected. '' @ js ''See the error report above for details.''
      = js '' forbidden import(s) detected. See the error report above for details.''"
    by (simp add: js_def)
  show ?thesis
  proof (intro conjI impI allI)
    assume a: "errorMap \<noteq> [] \<and> failOnError resolvedOptions \<and> 0 < snd report"
    then show "finishModules resolvedOptions pats readFileSync cwd modules =
            (fst report,
             Inl (Error (js ''[plugin-block-imports] '' @ digits (snd report)
                         @ js '' forbidden import(s) detected. See the error report above for details.'')))"
      unfolding run msg by simp
    from a tail show "\<exists>before. fst report =
                before
                @ error (red ?c (bold ?c
                            (js ''  '' @ digits (snd report) @ js '' error(s) found. Build failed.'')))
                @ error []"
      by blast
  next
    assume "\<not> failOnError resolvedOptions"
    then show "snd (finishModules resolvedOptions pats readFileSync cwd modules) = Inr ()"
      unfolding run by simp
  next
    fix e
    assume "snd (finishModules resolvedOptions pats readFileSync cwd modules) = Inl e"
    then show "errorMap \<noteq> []" "failOnError resolvedOptions" "0 < snd report"
      unfolding run by (simp_all split: if_splits)
  next
    assume "errorMap = []"
    then show "finishModules resolvedOptions pats readFileSync cwd modules = ([], Inr ())"
      unfolding run by simp
  qed
qed

theorem finishModules_failure_witness:
  "snd (finishModules
         \<lparr>forbiddenImports = [\<lparr>pattern = js ''next-intl'', alternative = js ''react-intl'', reason = None\<rparr>],
          exclude = [], failOnError = True, errorHeader = js ''MODULE FEDERATION BUILD ERROR'',
          colors = False\<rparr>
         [js ''next-intl'']
         (\<lambda>p. Some (js ''import { useTranslations } from 'next-intl';''))
         (js ''/app'')
         [\<lparr>resource = Some (js ''/app/src/a.tsx''),
           dependencies = Some [\<lparr>request = Some (js ''next-intl''), userRequest = None\<rparr>]\<rparr>])
   = Inl (Error (js ''[plugin-block-imports] 1 forbidden import(s) detected. See the error report above for details.''))
   \<and> snd (finishModules
         \<lparr>forbiddenImports = [\<lparr>pattern = js ''next-intl'', alternative = js ''react-intl'', reason = None\<rparr>],
          exclude = [], failOnError = False, errorHeader = js ''MODULE FEDERATION BUILD ERROR'',
          colors = False\<rparr>
         [js ''next-intl'']
         (\<lambda>p. Some (js ''import { useTranslations } from 'next-intl';''))
         (js ''/app'')
         [\<lparr>resource = Some (js ''/app/src/a.tsx''),
           dependencies = Some [\<lparr>request = Some (js ''next-intl''), userRequest = None\<rparr>]\<rparr>])
   = Inr ()"
proof -
  let ?rules = "[\<lparr>pattern = js ''next-intl'', alternative = js ''react-intl'', reason = None\<rparr>]"
  let ?on = "\<lparr>forbiddenImports = ?rules,
          exclude = [], failOnError = True, errorHeader = js ''MODULE FEDERATION BUILD ERROR'',
          colors = False\<rparr>"
  let ?off = "\<lparr>forbiddenImports = ?rules,
          exclude = [], failOnError = False, errorHeader = js ''MODULE FEDERATION BUILD ERROR'',
          colors = False\<rparr>"
  let ?fs = "\<lambda>p::jsstring. Some (js ''import { useTranslations } from 'next-intl';'')"
  let ?modules = "[\<lparr>resource = Some (js ''/app/src/a.tsx''),
           dependencies = Some [\<lparr>request = Some (js ''next-intl''), userRequest = None\<rparr>]\<rparr>]"
  have scan: "scanModules [] [js ''next-intl''] ?modules = [(js ''/app/src/a.tsx'', [js ''next-intl''])]"
    by (simp add: scan_eval)
  have lines: "split (js ''import { useTranslations } from 'next-intl';'')
      = [js ''import { useTranslations } from 'next-intl';'']"
    by (simp add: js_def LF_def)
  have hit: "firstForm (patterns (escape (js ''next-intl'')))
      (js ''import { useTranslations } from 'next-intl';'') = Some 27"
    by (simp add: rx_eval)
  have occ: "length (occurrences ?fs [(js ''/app/src/a.tsx'', [js ''next-intl''])]) = 1"
    by (simp only: occurrences_def located_def findImportLocations_def option.case lines
          list.map concat.simps fst_conv snd_conv append_Nil2)
       (simp add: checkLines_def checkLine_def checkPattern_def hit)
  have count: "snd (printErrorReport ?fs [(js ''/app/src/a.tsx'', [js ''next-intl''])] ?rules opts (js ''/app'')) = 1"
    for opts
    by (simp only: printErrorReport_eq snd_conv occ)
  note t1 = finishModules_failure [where resolvedOptions = ?on and pats = "[js ''next-intl'']"
      and modules = ?modules and readFileSync = ?fs and cwd = "js ''/app''", OF refl refl]
  note t2 = finishModules_failure [where resolvedOptions = ?off and pats = "[js ''next-intl'']"
      and modules = ?modules and readFileSync = ?fs and cwd = "js ''/app''", OF refl refl]
  have msg: "js ''[plugin-block-imports] '' @ digits (Suc 0)
       @ js '' forbidden import(s) detected. See the error report above for details.''
     = js ''[plugin-block-imports] 1 forbidden import(s) detected. See the error report above for details.''"
    by (simp add: digits.simps js_def)
  have c1: "snd (finishModules ?on [js ''next-intl''] ?fs (js ''/app'') ?modules)
     = Inl (Error (js ''[plugin-block-imports] 1 forbidden import(s) detected. See the error report above for details.''))"
    using t1 [THEN conjunct1] by (simp add: scan count msg)
  have c2: "snd (finishModules ?off [js ''next-intl''] ?fs (js ''/app'') ?modules) = Inr ()"
    using t2 [THEN conjunct2, THEN conjunct1] by simp
  from c1 c2 show ?thesis by (rule conjI)
qed

section \<open>What the three forms need after the pattern\<close>

lemma star_suffix: "t \<in> set (star k s) \<Longrightarrow> \<exists>u. s = u @ t"
proof (induction s)
  case Nil
  then show ?case by simp
next
  case (Cons c cs)
  then show ?case
    by (auto split: if_splits)
qed

lemma rmatch_suffix: "t \<in> set (rmatch r s) \<Longrightarrow> \<exists>u. s = u @ t"
proof (induction r arbitrary: s t)
  case (Lit p)
  then show ?case
    by (auto split: if_splits) (metis append_take_drop_id)
next
  case (One k)
  then show ?case
    by (cases s) (auto split: if_splits)
next
  case (Star k)
  then show ?case by (simp add: star_suffix)
next
  case (Plus k)
  show ?case
  proof (cases s)
    case Nil
    with Plus show ?thesis by simp
  next
    case (Cons c cs)
    with Plus have "t \<in> set (star k cs)" by (simp split: if_splits)
    then obtain u where "cs = u @ t" using star_suffix by blast
    with Cons have "s = (c # u) @ t" by simp
    then show ?thesis ..
  qed
next
  case (Opt r)
  then show ?case by auto
next
  case (Seq a b)
  from Seq.prems obtain m where m: "m \<in> set (rmatch a s)" and t: "t \<in> set (rmatch b m)"
    by auto
  from Seq.IH(1) [OF m] obtain u where "s = u @ m" ..
  moreover from Seq.IH(2) [OF t] obtain v where "m = v @ t" ..
  ultimately have "s = (u @ v) @ t" by simp
  then show ?case ..
qed

lemma rmatch_Seq_nonempty:
  "rmatch (Seq a b) s \<noteq> [] \<Longrightarrow> \<exists>u m. s = u @ m \<and> rmatch b m \<noteq> []"
proof -
  assume "rmatch (Seq a b) s \<noteq> []"
  then obtain t where "t \<in> set (rmatch (Seq a b) s)"
    by (meson last_in_set)
  then obtain m where m: "m \<in> set (rmatch a s)" and "t \<in> set (rmatch b m)"
    by auto
  then have "rmatch b m \<noteq> []" by auto
  moreover from rmatch_suffix [OF m] obtain u where "s = u @ m" ..
  ultimately show ?thesis by blast
qed

lemma specifier_needs:
  assumes "rmatch (Cat (specifier e)) s \<noteq> []"
  shows "\<exists>q c rest. s = q # unescape e @ c # rest \<and> (c = 39 \<or> c = 34 \<or> c = 47)"
proof -
  from assms obtain q s1 where s: "s = q # s1"
    and m1: "rmatch (Seq (Lit (unescape e))
               (Seq (Opt (Seq (Lit (js ''/'')) (Star NotQuote))) (One Quote))) s1 \<noteq> []"
    by (cases s) (auto simp: specifier_def split: if_splits)
  from m1 have pre: "startsWith s1 (unescape e)"
    and m2: "rmatch (Seq (Opt (Seq (Lit (js ''/'')) (Star NotQuote))) (One Quote))
               (drop (length (unescape e)) s1) \<noteq> []"
    by (auto split: if_splits)
  from pre obtain s2 where s1: "s1 = unescape e @ s2"
    by (auto simp: startsWith_append)
  with m2 have m3: "rmatch (Seq (Opt (Seq (Lit (js ''/'')) (Star NotQuote))) (One Quote)) s2 \<noteq> []"
    by simp
  have "\<exists>c rest. s2 = c # rest \<and> (c = 39 \<or> c = 34 \<or> c = 47)"
  proof (cases s2)
    case Nil
    with m3 show ?thesis by (simp add: js_def startsWith_def)
  next
    case (Cons c rest)
    show ?thesis
    proof (cases "c = 47")
      case True
      with Cons show ?thesis by simp
    next
      case False
      with Cons m3 have "c = 39 \<or> c = 34"
        by (auto simp: js_def startsWith_def split: if_splits)
      with Cons show ?thesis by blast
    qed
  qed
  with s s1 show ?thesis by auto
qed

lemma Cat_Cons: "rs \<noteq> [] \<Longrightarrow> Cat (r # rs) = Seq r (Cat rs)"
  by (cases rs) simp_all

lemma specifier_nonempty: "specifier e \<noteq> []"
  by (simp add: specifier_def)

lemma form_needs:
  assumes "r = fromForm e \<or> r = requireForm e \<or> r = importForm e"
    and "rmatch r s \<noteq> []"
  shows "\<exists>u q c rest. s = u @ q # unescape e @ c # rest \<and> (c = 39 \<or> c = 34 \<or> c = 47)"
proof -
  have "\<exists>u m. s = u @ m \<and> rmatch (Cat (specifier e)) m \<noteq> []"
    using assms(1)
  proof (elim disjE)
    assume "r = fromForm e"
    with assms(2) have "rmatch (Seq (Lit (js ''from'')) (Seq (Plus Space) (Cat (specifier e)))) s \<noteq> []"
      by (simp add: fromForm_def Cat_Cons specifier_nonempty)
    from rmatch_Seq_nonempty [OF this] obtain u1 m1 where 1: "s = u1 @ m1"
      and "rmatch (Seq (Plus Space) (Cat (specifier e))) m1 \<noteq> []"
      by blast
    from rmatch_Seq_nonempty [OF this(2)] obtain u2 m2 where "m1 = u2 @ m2"
      and "rmatch (Cat (specifier e)) m2 \<noteq> []"
      by blast
    with 1 have "s = (u1 @ u2) @ m2 \<and> rmatch (Cat (specifier e)) m2 \<noteq> []" by simp
    then show ?thesis by blast
  next
    assume "r = requireForm e"
    with assms(2) have "rmatch (Seq (Lit (js ''require'')) (Seq (Star Space)
        (Seq (Lit (js ''('')) (Seq (Star Space) (Cat (specifier e)))))) s \<noteq> []"
      by (simp add: requireForm_def Cat_Cons specifier_nonempty)
    from rmatch_Seq_nonempty [OF this] obtain u1 m1 where 1: "s = u1 @ m1"
      and "rmatch (Seq (Star Space) (Seq (Lit (js ''('')) (Seq (Star Space) (Cat (specifier e))))) m1 \<noteq> []"
      by blast
    from rmatch_Seq_nonempty [OF this(2)] obtain u2 m2 where 2: "m1 = u2 @ m2"
      and "rmatch (Seq (Lit (js ''('')) (Seq (Star Space) (Cat (specifier e)))) m2 \<noteq> []"
      by blast
    from rmatch_Seq_nonempty [OF this(2)] obtain u3 m3 where 3: "m2 = u3 @ m3"
      and "rmatch (Seq (Star Space) (Cat (specifier e))) m3 \<noteq> []"
      by blast
    from rmatch_Seq_nonempty [OF this(2)] obtain u4 m4 where "m3 = u4 @ m4"
      and "rmatch (Cat (specifier e)) m4 \<noteq> []"
      by blast
    with 1 2 3 have "s = (u1 @ u2 @ u3 @ u4) @ m4 \<and> rmatch (Cat (specifier e)) m4 \<noteq> []" by simp
    then show ?thesis by blast
  next
    assume "r = importForm e"
    with assms(2) have "rmatch (Seq (Lit (js ''import'')) (Seq (Star Space)
        (Seq (Lit (js ''('')) (Seq (Star Space) (Cat (specifier e)))))) s \<noteq> []"
      by (simp add: importForm_def Cat_Cons specifier_nonempty)
    from rmatch_Seq_nonempty [OF this] obtain u1 m1 where 1: "s = u1 @ m1"
      and "rmatch (Seq (Star Space) (Seq (Lit (js ''('')) (Seq (Star Space) (Cat (specifier e))))) m1 \<noteq> []"
      by blast
    from rmatch_Seq_nonempty [OF this(2)] obtain u2 m2 where 2: "m1 = u2 @ m2"
      and "rmatch (Seq (Lit (js ''('')) (Seq (Star Space) (Cat (specifier e)))) m2 \<noteq> []"
      by blast
    from rmatch_Seq_nonempty [OF this(2)] obtain u3 m3 where 3: "m2 = u3 @ m3"
      and "rmatch (Seq (Star Space) (Cat (specifier e))) m3 \<noteq> []"
      by blast
    from rmatch_Seq_nonempty [OF this(2)] obtain u4 m4 where "m3 = u4 @ m4"
      and "rmatch (Cat (specifier e)) m4 \<noteq> []"
      by blast
    with 1 2 3 have "s = (u1 @ u2 @ u3 @ u4) @ m4 \<and> rmatch (Cat (specifier e)) m4 \<noteq> []" by simp
    then show ?thesis by blast
  qed
  then obtain u m where s: "s = u @ m" and "rmatch (Cat (specifier e)) m \<noteq> []"
    by blast
  from specifier_needs [OF this(2)] obtain q c rest
    where "m = q # unescape e @ c # rest" "c = 39 \<or> c = 34 \<or> c = 47"
    by blast
  with s show ?thesis by blast
qed

lemma firstForm_in: "firstForm rs l = Some k \<Longrightarrow> \<exists>r\<in>set rs. match l r = Some k"
  by (induction rs) (auto split: option.splits)

lemma firstForm_needs:
  assumes "firstForm (patterns (escape p)) l = Some k"
  shows "\<exists>pre c rest. l = pre @ p @ c # rest \<and> (c = 39 \<or> c = 34 \<or> c = 47)"
proof -
  from firstForm_in [OF assms] obtain r where r: "r \<in> set (patterns (escape p))"
    and m: "match l r = Some k"
    by blast
  from r have form: "r = fromForm (escape p) \<or> r = requireForm (escape p) \<or> r = importForm (escape p)"
    by (simp add: patterns_def)
  from match_Some [OF m] have "rmatch r (drop k l) \<noteq> []" by simp
  from form_needs [OF form this] obtain u q c rest
    where d: "drop k l = u @ q # p @ c # rest" and c: "c = 39 \<or> c = 34 \<or> c = 47"
    by (auto simp: unescape_escape)
  have "l = take k l @ drop k l" by simp
  with d have "l = (take k l @ u @ [q]) @ p @ c # rest" by simp
  with c show ?thesis by blast
qed

section \<open>A finding that the locator does not find\<close>

lemma default_patterns:
  "new_Set (map pattern NEXTJS_FORBIDDEN_IMPORTS) =
     [js ''next/link'', js ''next/image'', js ''next/router'', js ''next/navigation'',
      js ''next/head'', js ''next/script'', js ''next/dynamic'', js ''next/font'',
      js ''next/headers'', js ''next/cookies'', js ''next-intl'', js ''next-auth'',
      js ''next-themes'', js ''next-seo'', js ''next-i18next'']"
  by (simp add: NEXTJS_FORBIDDEN_IMPORTS_def new_Set_def Set_add_def js_def)

text \<open>
  Claim C8. Whenever one of the three forms matches a line for a pattern, the line holds
  the pattern followed at once by a quote or by a slash; the scanner only asks that the
  request starts with the pattern. So they can disagree, and here they do: the plugin is
  set up with the default rules, which hold \<open>next/router\<close>, and with \<open>failOnError\<close> left
  at its default, which is true; the only dependency of the file requests
  \<open>next/routerx\<close>, which the file imports. The scan records the file with
  \<open>next/router\<close>, the locator returns no record for it, and the callback of the plugin
  prints the header and the summary \<open>0 error(s) found. Build failed.\<close> and returns
  without throwing.
\<close>

theorem scanner_locator_disagree:
  "(\<forall>p l k. firstForm (patterns (escape p)) l = Some k
       \<longrightarrow> (\<exists>pre c rest. l = pre @ p @ c # rest \<and> (c = 39 \<or> c = 34 \<or> c = 47)))
   \<and> startsWith (js ''next/routerx'') (js ''next/router'')
   \<and> scanModules [] (new_Set (map pattern NEXTJS_FORBIDDEN_IMPORTS))
         [\<lparr>resource = Some (js ''/app/src/a.tsx''),
           dependencies = Some [\<lparr>request = Some (js ''next/routerx''), userRequest = None\<rparr>]\<rparr>]
       = [(js ''/app/src/a.tsx'', [js ''next/router''])]
   \<and> findImportLocations (\<lambda>p. Some (js ''import { useRouter } from 'next/routerx';''))
         (js ''/app/src/a.tsx'') [js ''next/router''] = ([], [])
   \<and> (\<exists>plugin.
         pluginBlockImports
           \<lparr>opt_forbiddenImports = Array NEXTJS_FORBIDDEN_IMPORTS,
            opt_exclude = None, opt_failOnError = None, opt_errorHeader = None,
            opt_colors = Some False\<rparr> = Inr plugin
         \<and> onFinishModules plugin
             (\<lambda>p. Some (js ''import { useRouter } from 'next/routerx';''))
             (js ''/app'')
             [\<lparr>resource = Some (js ''/app/src/a.tsx''),
               dependencies = Some [\<lparr>request = Some (js ''next/routerx''), userRequest = None\<rparr>]\<rparr>]
           = (header (createColorizer False) (js ''MODULE FEDERATION BUILD ERROR'')
              @ error (js ''  0 error(s) found. Build failed.'') @ error [],
              Inr ()))"
proof (intro conjI allI impI)
  fix p l k
  assume "firstForm (patterns (escape p)) l = Some k"
  then show "\<exists>pre c rest. l = pre @ p @ c # rest \<and> (c = 39 \<or> c = 34 \<or> c = 47)"
    by (rule firstForm_needs)
next
  show "startsWith (js ''next/routerx'') (js ''next/router'')"
    by (simp add: js_def startsWith_def)
next
  let ?modules = "[\<lparr>resource = Some (js ''/app/src/a.tsx''),
           dependencies = Some [\<lparr>request = Some (js ''next/routerx''), userRequest = None\<rparr>]\<rparr>]"
  let ?fs = "\<lambda>p::jsstring. Some (js ''import { useRouter } from 'next/routerx';'')"
  let ?ro = "\<lparr>forbiddenImports = NEXTJS_FORBIDDEN_IMPORTS, exclude = [], failOnError = True,
      errorHeader = js ''MODULE FEDERATION BUILD ERROR'', colors = False\<rparr>"
  show scan: "scanModules [] (new_Set (map pattern NEXTJS_FORBIDDEN_IMPORTS)) ?modules
      = [(js ''/app/src/a.tsx'', [js ''next/router''])]"
    unfolding default_patterns by (simp add: scan_eval)
  have lines: "split (js ''import { useRouter } from 'next/routerx';'')
      = [js ''import { useRouter } from 'next/routerx';'']"
    by (simp add: js_def LF_def)
  have miss: "firstForm (patterns (escape (js ''next/router'')))
      (js ''import { useRouter } from 'next/routerx';'') = None"
    by (simp add: rx_eval)
  show loc: "findImportLocations ?fs (js ''/app/src/a.tsx'') [js ''next/router''] = ([], [])"
    by (simp only: findImportLocations_def option.case lines)
       (simp add: checkLines_def checkLine_def checkPattern_def miss)
  have occ: "occurrences ?fs [(js ''/app/src/a.tsx'', [js ''next/router''])] = []"
    by (simp only: occurrences_def located_def loc list.map concat.simps fst_conv snd_conv
        append_Nil2)
  have summ: "js ''  '' @ summary 0 True = js ''  0 error(s) found. Build failed.''"
    by (simp add: summary_def digits.simps js_def)
  have report: "printErrorReport ?fs [(js ''/app/src/a.tsx'', [js ''next/router''])]
        NEXTJS_FORBIDDEN_IMPORTS ?ro (js ''/app'')
      = (header (createColorizer False) (js ''MODULE FEDERATION BUILD ERROR'')
         @ error (js ''  0 error(s) found. Build failed.'') @ error [], 0)"
    unfolding printErrorReport_eq occ
    by (simp add: fileOutput_def located_def loc alternatives_def new_Set_def summ
        createColorizer_def)
  have run: "finishModules ?ro (new_Set (map pattern NEXTJS_FORBIDDEN_IMPORTS)) ?fs (js ''/app'') ?modules
      = (header (createColorizer False) (js ''MODULE FEDERATION BUILD ERROR'')
         @ error (js ''  0 error(s) found. Build failed.'') @ error [], Inr ())"
    unfolding finishModules_def Let_def
    by (simp only: ResolvedOptions.simps scan report) simp
  show "\<exists>plugin.
         pluginBlockImports
           \<lparr>opt_forbiddenImports = Array NEXTJS_FORBIDDEN_IMPORTS,
            opt_exclude = None, opt_failOnError = None, opt_errorHeader = None,
            opt_colors = Some False\<rparr> = Inr plugin
         \<and> onFinishModules plugin ?fs (js ''/app'') ?modules
           = (header (createColorizer False) (js ''MODULE FEDERATION BUILD ERROR'')
              @ error (js ''  0 error(s) found. Build failed.'') @ error [],
              Inr ())"
    by (simp add: pluginBlockImports_def resolveOptions_def Let_def run)
qed

theorem scanner_locator_disagree_witness:
  "firstForm (patterns (escape (js ''next/image''))) (js ''import Image from 'next/image';'') = Some 13
   \<and> (\<exists>pre c rest. js ''import Image from 'next/image';'' = pre @ js ''next/image'' @ c # rest
        \<and> (c = 39 \<or> c = 34 \<or> c = 47))"
proof -
  have h: "firstForm (patterns (escape (js ''next/image'')))
      (js ''import Image from 'next/image';'') = Some 13"
    by (rule example_line_match)
  have c: "\<exists>pre c rest. js ''import Image from 'next/image';'' = pre @ js ''next/image'' @ c # rest
        \<and> (c = 39 \<or> c = 34 \<or> c = 47)"
    by (rule scanner_locator_disagree [THEN conjunct1, rule_format, OF h])
  from h c show ?thesis by (rule conjI)
qed

section \<open>The colorizer, and the report without colors\<close>

lemma plain_Nil: "plain []"
  by (simp add: plain_def)

lemma plain_append: "plain (a @ b) \<longleftrightarrow> plain a \<and> plain b"
  by (auto simp: plain_def)

lemma plain_subset: "set a \<subseteq> set b \<Longrightarrow> plain b \<Longrightarrow> plain a"
  by (auto simp: plain_def)

lemma plain_digits: "plain (digits n)"
proof (induction n rule: digits.induct)
  case (1 n)
  show ?case
  proof (cases "n < 10")
    case True
    then show ?thesis
      by (subst digits.simps) (simp add: plain_def ESC_def)
  next
    case False
    with 1 have "plain (digits (n div 10))" by simp
    with False show ?thesis
      by (subst digits.simps) (simp add: plain_def ESC_def)
  qed
qed

lemma set_replace: "set (replace s pat []) \<subseteq> set s"
proof (induction s)
  case Nil
  then show ?case by simp
next
  case (Cons c cs)
  have "set (drop (length pat) (c # cs)) \<subseteq> set (c # cs)"
    by (rule set_drop_subset)
  with Cons show ?case by auto
qed

lemma set_trim: "set (trim s) \<subseteq> set s"
proof -
  have "set (dropWhile isSpace (rev (dropWhile isSpace s))) \<subseteq> set (rev (dropWhile isSpace s))"
    by (rule set_dropWhileD [THEN subsetI])
  also have "\<dots> \<subseteq> set s"
    using set_dropWhileD [of _ isSpace s] by auto
  finally show ?thesis by (simp add: trim_def)
qed

lemma set_split: "l \<in> set (split s) \<Longrightarrow> set l \<subseteq> set s"
proof (induction s arbitrary: l)
  case Nil
  then show ?case by simp
next
  case (Cons c cs)
  show ?case
  proof (cases "c = LF")
    case True
    with Cons show ?thesis by auto
  next
    case False
    show ?thesis
    proof (cases "split cs")
      case Nil
      with False Cons.prems show ?thesis by simp
    next
      case (Cons h t)
      with False Cons.prems have "l = c # h \<or> l \<in> set t" by simp
      moreover have "set h \<subseteq> set cs" "\<And>x. x \<in> set t \<Longrightarrow> set x \<subseteq> set cs"
        using Cons.IH Cons by simp_all
      ultimately show ?thesis by auto
    qed
  qed
qed

lemma plain_padEnd: "plain (padEnd s n) \<longleftrightarrow> plain s"
  by (auto simp: plain_def padEnd_def ESC_def)

lemma plainConsole_Nil: "plainConsole []"
  by (simp add: plainConsole_def)

lemma plainConsole_append: "plainConsole (a @ b) \<longleftrightarrow> plainConsole a \<and> plainConsole b"
  by (simp add: plainConsole_def)

lemma plainConsole_error: "plainConsole (error s) \<longleftrightarrow> plain s"
  by (simp add: plainConsole_def error_def)

lemma plainConsole_concat: "(\<And>x. x \<in> set xs \<Longrightarrow> plainConsole x) \<Longrightarrow> plainConsole (concat xs)"
  by (induction xs) (simp_all add: plainConsole_Nil plainConsole_append)

lemma plain_Cons: "plain (c # s) \<longleftrightarrow> c \<noteq> ESC \<and> plain s"
  by (auto simp: plain_def)

lemma plain_replicate: "c \<noteq> ESC \<Longrightarrow> plain (replicate n c)"
  by (auto simp: plain_def)

lemmas plain_simps = plain_Nil plain_Cons plain_append plain_padEnd plain_digits
  plainConsole_Nil plainConsole_append plainConsole_error

lemma plain_header:
  "plain title \<Longrightarrow> plainConsole (header (createColorizer False) title)"
  by (simp add: header_def plain_simps plain_replicate createColorizer_def)
     (simp add: plain_def js_def ESC_def)

lemma plain_diagnostic:
  "plain rel \<Longrightarrow> plain (importName err) \<Longrightarrow> plain (lineContent err)
     \<Longrightarrow> plainConsole (diagnostic (createColorizer False) rel err)"
  by (simp add: diagnostic_def Let_def plain_simps createColorizer_def)
     (simp add: plain_def js_def ESC_def)

lemma plain_summary: "plain (js ''  '' @ summary n b)"
  by (simp add: summary_def plain_simps) (simp add: plain_def js_def ESC_def)

lemma located_records:
  assumes "e \<in> set (located readFileSync entry)"
  shows "importName e \<in> set (snd entry)
     \<and> (lineContent e = []
        \<or> (\<exists>content. readFileSync (fst entry) = Some content \<and> set (lineContent e) \<subseteq> set content))"
proof (cases "readFileSync (fst entry)")
  case None
  with assms show ?thesis
    by (auto simp: located_def findImportLocations_def degraded_def)
next
  case (Some content)
  with assms have "e \<in> set (checkLines (snd entry) (split content))"
    by (simp add: located_def findImportLocations_def)
  then obtain i p k where i: "i < length (split content)" and p: "p \<in> set (snd entry)"
    and e: "e = \<lparr>importName = p, line = i + 1, column = k,
                 lineContent = trim (split content ! i)\<rparr>"
    unfolding in_checkLines by blast
  from i have "set (split content ! i) \<subseteq> set content"
    by (intro set_split nth_mem)
  with set_trim [of "split content ! i"] have "set (trim (split content ! i)) \<subseteq> set content"
    by blast
  with Some p e show ?thesis by simp
qed

lemma plain_warning:
  "plain (fst entry) \<Longrightarrow> plainConsole (fst (findImportLocations readFileSync (fst entry) (snd entry)))"
  by (cases "readFileSync (fst entry)")
     (simp_all add: findImportLocations_def plainConsole_def plain_append,
      simp add: plain_def js_def ESC_def)

lemma plain_fileOutput:
  assumes "plain (fst entry)" and "\<forall>p\<in>set (snd entry). plain p"
    and "\<forall>content. readFileSync (fst entry) = Some content \<longrightarrow> plain content"
  shows "plainConsole (fileOutput readFileSync (createColorizer False) cwd entry)"
proof -
  have rel: "plain (replace (fst entry) cwd [])"
    using set_replace assms(1) by (rule plain_subset)
  have "plainConsole (diagnostic (createColorizer False) (replace (fst entry) cwd []) e)"
    if "e \<in> set (located readFileSync entry)" for e
  proof -
    from located_records [OF that] assms(2) have n: "plain (importName e)"
      by blast
    from located_records [OF that] assms(3) have "plain (lineContent e)"
      by (auto simp: plain_Nil intro: plain_subset)
    with rel n show ?thesis by (rule plain_diagnostic)
  qed
  then have "plainConsole (concat (map (diagnostic (createColorizer False)
      (replace (fst entry) cwd [])) (located readFileSync entry)))"
    by (intro plainConsole_concat) auto
  with plain_warning [OF assms(1)] show ?thesis
    by (simp add: fileOutput_def plainConsole_append)
qed

lemma alternativesMap_range:
  "map_of (foldl (\<lambda>m f. Map_set m (pattern f) (alternative f)) acc forbidden) k = Some alt
     \<Longrightarrow> map_of acc k = Some alt \<or> (\<exists>f\<in>set forbidden. alt = alternative f)"
proof (induction forbidden arbitrary: acc)
  case Nil
  then show ?case by simp
next
  case (Cons f fs)
  from Cons.IH [of "Map_set acc (pattern f) (alternative f)"] Cons.prems
  show ?case
    by (auto simp: map_of_Map_set split: if_splits)
qed

lemma plain_alternativeLine:
  assumes "plain imp" and "\<forall>f\<in>set forbidden. plain (alternative f)"
  shows "plainConsole (alternativeLine (createColorizer False) (alternativesMapOf forbidden) imp)"
proof (cases "Map_get (alternativesMapOf forbidden) imp")
  case None
  then show ?thesis by (simp add: alternativeLine_def plainConsole_Nil)
next
  case (Some alt)
  then have "\<exists>f\<in>set forbidden. alt = alternative f"
    using alternativesMap_range [of "[]" forbidden imp alt]
    by (simp add: Map_get_def alternativesMapOf_def)
  with assms(2) have "plain alt" by blast
  with Some assms(1) show ?thesis
    by (simp add: alternativeLine_def plain_simps createColorizer_def)
       (simp add: plain_def js_def ESC_def)
qed

lemma plain_alternatives:
  assumes "\<forall>imp\<in>set found. plain imp" and "\<forall>f\<in>set forbidden. plain (alternative f)"
  shows "plainConsole (alternatives (createColorizer False) (alternativesMapOf forbidden) found)"
proof -
  have "plainConsole (concat (map (alternativeLine (createColorizer False)
      (alternativesMapOf forbidden)) found))"
    using assms by (intro plainConsole_concat) (auto intro: plain_alternativeLine)
  then show ?thesis
    by (simp add: alternatives_def plain_simps createColorizer_def)
       (simp add: plain_def js_def ESC_def)
qed

lemma occurrences_names:
  assumes "e \<in> set (occurrences readFileSync errorMap)"
  shows "\<exists>entry\<in>set errorMap. importName e \<in> set (snd entry)"
proof -
  from assms obtain entry where entry: "entry \<in> set errorMap"
    and "e \<in> set (located readFileSync entry)"
    by (auto simp: occurrences_def)
  from located_records [OF this(2)] have "importName e \<in> set (snd entry)" ..
  with entry show ?thesis ..
qed

lemma plain_printErrorReport:
  assumes "\<not> colors options" and "plain (errorHeader options)"
    and "\<forall>entry\<in>set errorMap. plain (fst entry) \<and> (\<forall>p\<in>set (snd entry). plain p)
           \<and> (\<forall>content. readFileSync (fst entry) = Some content \<longrightarrow> plain content)"
    and "\<forall>f\<in>set forbidden. plain (alternative f)"
  shows "plainConsole (fst (printErrorReport readFileSync errorMap forbidden options cwd))"
proof -
  from assms(1) have c: "createColorizer (colors options) = createColorizer False"
    by simp
  have files: "plainConsole (concat (map (fileOutput readFileSync (createColorizer False) cwd) errorMap))"
    using assms(3) by (intro plainConsole_concat) (auto intro: plain_fileOutput)
  have "\<forall>imp\<in>set (new_Set (map importName (occurrences readFileSync errorMap))). plain imp"
    using occurrences_names [of _ readFileSync errorMap] assms(3)
    by (auto simp: set_new_Set)
  then have alts: "plainConsole (alternatives (createColorizer False) (alternativesMapOf forbidden)
      (new_Set (map importName (occurrences readFileSync errorMap))))"
    using assms(4) by (rule plain_alternatives)
  have summ: "plainConsole (error (red (createColorizer False) (bold (createColorizer False)
      (js ''  '' @ summary (length (occurrences readFileSync errorMap)) (failOnError options)))))"
    using plain_summary by (simp add: plainConsole_error createColorizer_def)
  show ?thesis
    unfolding printErrorReport_eq c fst_conv
    using plain_header [OF assms(2)] files alts summ
    by (simp add: plainConsole_append plainConsole_error plain_Nil)
qed

text \<open>
  Claim C9. The five functions of the colorizer made with colors disabled return their
  argument. Those of the colorizer made with colors enabled return the argument between
  the code of the color and the reset code. The escape character, with which each code
  starts, is the code unit 27. With colors disabled, the report holds no escape character
  unless the configuration or a reported file brings one: if the header text, the paths
  and patterns of the finding, the text of each readable file of the finding and the
  alternatives hold none, then no printed line holds one.
\<close>

theorem createColorizer_colors:
  "red (createColorizer False) s = s \<and> yellow (createColorizer False) s = s
   \<and> cyan (createColorizer False) s = s \<and> gray (createColorizer False) s = s
   \<and> bold (createColorizer False) s = s
   \<and> red (createColorizer True) s = ESC # js ''[31m'' @ s @ ESC # js ''[0m''
   \<and> yellow (createColorizer True) s = ESC # js ''[33m'' @ s @ ESC # js ''[0m''
   \<and> cyan (createColorizer True) s = ESC # js ''[36m'' @ s @ ESC # js ''[0m''
   \<and> gray (createColorizer True) s = ESC # js ''[90m'' @ s @ ESC # js ''[0m''
   \<and> bold (createColorizer True) s = ESC # js ''[1m'' @ s @ ESC # js ''[0m''
   \<and> ESC = 27
   \<and> (\<not> colors options \<and> plain (errorHeader options)
        \<and> (\<forall>entry\<in>set errorMap. plain (fst entry) \<and> (\<forall>p\<in>set (snd entry). plain p)
              \<and> (\<forall>content. readFileSync (fst entry) = Some content \<longrightarrow> plain content))
        \<and> (\<forall>f\<in>set forbidden. plain (alternative f))
      \<longrightarrow> plainConsole (fst (printErrorReport readFileSync errorMap forbidden options cwd)))
   \<and> (plainConsole printed \<longleftrightarrow> (\<forall>entry\<in>set printed. ESC \<notin> set (snd entry)))"
proof (intro conjI impI)
  assume "\<not> colors options \<and> plain (errorHeader options)
        \<and> (\<forall>entry\<in>set errorMap. plain (fst entry) \<and> (\<forall>p\<in>set (snd entry). plain p)
              \<and> (\<forall>content. readFileSync (fst entry) = Some content \<longrightarrow> plain content))
        \<and> (\<forall>f\<in>set forbidden. plain (alternative f))"
  then show "plainConsole (fst (printErrorReport readFileSync errorMap forbidden options cwd))"
    by (intro plain_printErrorReport) simp_all
next
  show "plainConsole printed \<longleftrightarrow> (\<forall>entry\<in>set printed. ESC \<notin> set (snd entry))"
    by (simp add: plainConsole_def plain_def list_all_iff)
qed (simp_all add: createColorizer_def ANSI_COLORS_def ESC_def)

theorem createColorizer_colors_witness:
  "\<not> colors \<lparr>forbiddenImports = [\<lparr>pattern = js ''next-intl'', alternative = js ''react-intl'', reason = None\<rparr>],
               exclude = [], failOnError = True, errorHeader = js ''MODULE FEDERATION BUILD ERROR'',
               colors = False\<rparr>
   \<and> plain (js ''MODULE FEDERATION BUILD ERROR'')
   \<and> plain (js ''/app/src/a.tsx'') \<and> plain (js ''next-intl'') \<and> plain (js ''react-intl'')
   \<and> plain (js ''import { useTranslations } from 'next-intl';'')
   \<and> plainConsole (fst (printErrorReport
         (\<lambda>p. Some (js ''import { useTranslations } from 'next-intl';''))
         [(js ''/app/src/a.tsx'', [js ''next-intl''])]
         [\<lparr>pattern = js ''next-intl'', alternative = js ''react-intl'', reason = None\<rparr>]
         \<lparr>forbiddenImports = [\<lparr>pattern = js ''next-intl'', alternative = js ''react-intl'', reason = None\<rparr>],
          exclude = [], failOnError = True, errorHeader = js ''MODULE FEDERATION BUILD ERROR'',
          colors = False\<rparr>
         (js ''/app'')))"
proof -
  let ?rules = "[\<lparr>pattern = js ''next-intl'', alternative = js ''react-intl'', reason = None\<rparr>]"
  let ?ro = "\<lparr>forbiddenImports = ?rules,
          exclude = [], failOnError = True, errorHeader = js ''MODULE FEDERATION BUILD ERROR'',
          colors = False\<rparr>"
  let ?fs = "\<lambda>p::jsstring. Some (js ''import { useTranslations } from 'next-intl';'')"
  have p: "plain (js ''MODULE FEDERATION BUILD ERROR'')" "plain (js ''/app/src/a.tsx'')"
    "plain (js ''next-intl'')" "plain (js ''react-intl'')"
    "plain (js ''import { useTranslations } from 'next-intl';'')"
    by (simp_all add: plain_def js_def ESC_def)
  note t = createColorizer_colors [where options = ?ro and readFileSync = ?fs
      and errorMap = "[(js ''/app/src/a.tsx'', [js ''next-intl''])]" and forbidden = ?rules
      and cwd = "js ''/app''"]
  have "plainConsole (fst (printErrorReport ?fs [(js ''/app/src/a.tsx'', [js ''next-intl''])]
      ?rules ?ro (js ''/app'')))"
    by (rule t [THEN conjunct2, THEN conjunct2, THEN conjunct2, THEN conjunct2, THEN conjunct2,
          THEN conjunct2, THEN conjunct2, THEN conjunct2, THEN conjunct2, THEN conjunct2,
          THEN conjunct2, THEN conjunct1, THEN mp])
       (simp add: p)
  with p show ?thesis by simp
qed

section \<open>Setup: the check of the options\<close>

text \<open>
  Claim C5, as the code has it. Setup throws the configuration error exactly when
  \<open>forbiddenImports\<close> is missing or is not an array. For every array of rules, the empty
  one too, setup returns the plugin, whose name is \<open>plugin-block-imports\<close>.
\<close>

theorem pluginBlockImports_validation:
  "(opt_forbiddenImports options = Missing \<or> opt_forbiddenImports options = NotAnArray
      \<longrightarrow> pluginBlockImports options =
            Inl (Error (js ''[plugin-block-imports] forbiddenImports option is required and must be an array'')))
   \<and> (\<forall>rules. opt_forbiddenImports options = Array rules
      \<longrightarrow> (\<exists>plugin. pluginBlockImports options = Inr plugin
                     \<and> name plugin = js ''plugin-block-imports''))"
proof (cases "opt_forbiddenImports options")
  case Missing
  then show ?thesis
    by (simp add: pluginBlockImports_def js_append [symmetric])
next
  case NotAnArray
  then show ?thesis
    by (simp add: pluginBlockImports_def js_append [symmetric])
next
  case (Array rules)
  then show ?thesis
    by (simp add: pluginBlockImports_def Let_def)
qed

theorem pluginBlockImports_validation_witness:
  "pluginBlockImports \<lparr>opt_forbiddenImports = Missing, opt_exclude = None,
       opt_failOnError = None, opt_errorHeader = None, opt_colors = None\<rparr> =
     Inl (Error (js ''[plugin-block-imports] forbiddenImports option is required and must be an array''))
   \<and> (\<exists>plugin. pluginBlockImports \<lparr>opt_forbiddenImports =
           Array [\<lparr>pattern = js ''next/link'', alternative = js ''a'', reason = None\<rparr>],
           opt_exclude = None, opt_failOnError = None, opt_errorHeader = None,
           opt_colors = None\<rparr> = Inr plugin
        \<and> name plugin = js ''plugin-block-imports'')"
  using pluginBlockImports_validation
      [of "\<lparr>opt_forbiddenImports = Missing, opt_exclude = None,
            opt_failOnError = None, opt_errorHeader = None, opt_colors = None\<rparr>"]
    pluginBlockImports_validation
      [of "\<lparr>opt_forbiddenImports =
             Array [\<lparr>pattern = js ''next/link'', alternative = js ''a'', reason = None\<rparr>],
            opt_exclude = None, opt_failOnError = None, opt_errorHeader = None,
            opt_colors = None\<rparr>"]
  by simp

text \<open>
  Claim C5 as the specification states it says that an empty array is refused. The code
  accepts it: \<open>[]\<close> is truthy and an array, so nothing is thrown.
\<close>

theorem pluginBlockImports_empty_array_accepted:
  "pluginBlockImports \<lparr>opt_forbiddenImports = Array [], opt_exclude = None,
       opt_failOnError = None, opt_errorHeader = None, opt_colors = None\<rparr> \<noteq>
     Inl (Error (js ''[plugin-block-imports] forbiddenImports option is required and must be an array''))
   \<and> isl (pluginBlockImports \<lparr>opt_forbiddenImports = Array [], opt_exclude = None,
       opt_failOnError = None, opt_errorHeader = None, opt_colors = None\<rparr>) = False"
  by (simp add: pluginBlockImports_def Let_def)

section \<open>The locator when the file cannot be read\<close>

text \<open>
  Claim C7. When reading the file fails, the locator returns (it throws nothing): it
  prints exactly one warning, which names the file, and returns one record for each
  requested pattern, in the order of the set, each with line 0, column 0 and an empty
  line text.
\<close>

theorem findImportLocations_unreadable:
  assumes "readFileSync filePath = None"
  shows "findImportLocations readFileSync filePath imports =
           ([(ConsoleWarn, js ''[plugin-block-imports] Could not read file: '' @ filePath)],
            map (\<lambda>imp. \<lparr>importName = imp, line = 0, column = 0, lineContent = []\<rparr>) imports)"
  using assms by (simp add: findImportLocations_def degraded_def)

theorem findImportLocations_unreadable_witness:
  "(\<lambda>p. None) (js ''/app/gone.ts'') = (None :: jsstring option)
   \<and> findImportLocations (\<lambda>p. None) (js ''/app/gone.ts'') [js ''next/link'', js ''next-intl''] =
       ([(ConsoleWarn, js ''[plugin-block-imports] Could not read file: '' @ js ''/app/gone.ts'')],
        [\<lparr>importName = js ''next/link'', line = 0, column = 0, lineContent = []\<rparr>,
         \<lparr>importName = js ''next-intl'', line = 0, column = 0, lineContent = []\<rparr>])"
  using findImportLocations_unreadable
      [of "\<lambda>p. None" "js ''/app/gone.ts''" "[js ''next/link'', js ''next-intl'']"]
  by simp

end
